theory Spec2Isabelle
  imports
    Complex_Main
    "HOL-Library.Word"
    "HOL-Library.Multiset"
    "HOL-Library.Char_ord"
    "HOL-Library.List_Lexorder"
begin

unbundle bit_operations_syntax

section \<open>Shared types\<close>

type_synonym byte = "8 word"
type_synonym bytes = "byte list"

text \<open>
  Every Go error return that the modelled functions can produce is one constructor.
  \<open>common.ContextError\<close> only prefixes the message with the caller's name, so it is
  the identity here.
\<close>

datatype error =
    DatabaseNotOpen
  | InvalidServerEntry
  | TargetDecodeFailed
  | TargetNoEgressRegion
  | TargetNoLimitTunnelProtocols
  | MissingPaddingSeed
  | RandomSourceFailed
  | CipherInitFailed
  | InsufficientKeyBytes
  | UnexpectedEOF
  | InvalidMagicValue
  | InvalidPaddingLength
  | DialFailed
  | SplitHostPortFailed
  | HexDecodeFailed
  | InvalidSessionKeyLength
  | ReadFileFailed
  | SessionStateFailed
  | NotTLS13
  | HandshakeFailed
  | ContextDone
  | NoCertificateToVerify
  | UnexpectedCertificate
  | ChainVerifyFailed
  | MissingClientHelloPRNGSeed
  | ShortReadFromRand
  | BadRandomLength
  | UnknownParrotID
  | IndexOutOfRange

section \<open>The data store (psiphon/dataStore.go)\<close>

subsection \<open>Buckets\<close>

text \<open>
  Modelled from the spec: the bucket operations of the database binding
  (\<open>tx.bucket\<close>, \<open>get\<close>, \<open>put\<close>, \<open>cursor\<close>), whose file is missing. The spec
  has "a keyed bucket store" whose mutations are transactional. A bucket is an
  association list kept in key order, the order in which a cursor walks it. Keys are
  byte strings compared bytewise, which is the order of \<^typ>\<open>string\<close> under the
  lexicographic order on characters. \<open>get\<close> of a missing key is Go's \<open>nil\<close>, here
  \<^const>\<open>None\<close>. \<open>put\<close> and \<open>get\<close> do not fail.
\<close>

type_synonym 'v bucket = "(string \<times> 'v) list"

definition bucket_get :: "'v bucket \<Rightarrow> string \<Rightarrow> 'v option" where
  "bucket_get b k = map_of b k"

fun bucket_put :: "string \<Rightarrow> 'v \<Rightarrow> 'v bucket \<Rightarrow> 'v bucket" where
  "bucket_put k v [] = [(k, v)]"
| "bucket_put k v ((k', v') # rest) =
     (if k = k' then (k, v) # rest
      else if k < k' then (k, v) # (k', v') # rest
      else (k', v') # bucket_put k v rest)"

definition cursor_keys :: "'v bucket \<Rightarrow> string list" where
  "cursor_keys b = map fst b"

subsection \<open>Server entries and the store\<close>

text \<open>
  The fields of \<open>protocol.ServerEntry\<close> that the store and the iterator read.
  \<open>TacticsProtocols\<close> stands for the result of \<open>GetSupportedTacticsProtocols()\<close>.
  \<open>ConfigurationVersion\<close> is a Go \<open>int\<close>; only comparisons are made on it.
\<close>

record ServerEntry =
  IpAddress :: string
  Region :: string
  ConfigurationVersion :: int
  TacticsProtocols :: "string list"
  MeekFrontingAddresses :: "string list"
  MeekFrontingDomain :: string

text \<open>
  What the server-entry bucket holds under a key: bytes that \<open>json.Unmarshal\<close>
  decodes to an entry, or bytes that it rejects. (A stored JSON \<open>null\<close>, which
  \<open>json.Unmarshal\<close> accepts while leaving the pointer nil, is outside this model;
  \<open>StoreServerEntry\<close> never writes one.)
\<close>

datatype stored = Encoded ServerEntry | Malformed bytes

record datastore =
  serverEntries :: "stored bucket"
  keyValues :: "string bucket"
  dialParameters :: "bytes bucket"

definition datastoreLastServerEntryFilterKey :: string where
  "datastoreLastServerEntryFilterKey = ''lastServerEntryFilter''"

definition datastoreAffinityServerEntryIDKey :: string where
  "datastoreAffinityServerEntryIDKey = ''affinityServerEntryID''"

text \<open>
  The part of \<open>Config\<close> read here. \<open>TargetServerEntry\<close> is \<^const>\<open>None\<close> for the
  empty string; otherwise it carries what \<open>protocol.DecodeServerEntry\<close> makes of
  the configured string. \<open>ReplayCandidateCount\<close> is the client parameter of that name.
\<close>

record Config =
  EgressRegion :: string
  TargetServerEntry :: "stored option"
  NetworkID :: string
  ReplayCandidateCount :: int

text \<open>
  \<open>activeDatastoreDB\<close> is \<^const>\<open>None\<close> while the store is closed. An update
  transaction whose function returns an error is rolled back.
\<close>

definition datastoreView ::
  "(datastore \<Rightarrow> error + 'a) \<Rightarrow> datastore option \<Rightarrow> error + 'a" where
  "datastoreView fn activeDatastoreDB =
     (case activeDatastoreDB of
        None \<Rightarrow> Inl DatabaseNotOpen
      | Some db \<Rightarrow> fn db)"

definition datastoreUpdate ::
  "(datastore \<Rightarrow> error option \<times> datastore) \<Rightarrow> datastore option
     \<Rightarrow> error option \<times> datastore option" where
  "datastoreUpdate fn activeDatastoreDB =
     (case activeDatastoreDB of
        None \<Rightarrow> (Some DatabaseNotOpen, None)
      | Some db \<Rightarrow>
          (case fn db of
             (None, db') \<Rightarrow> (None, Some db')
           | (Some e, _) \<Rightarrow> (Some e, Some db)))"

text \<open>
  \<open>StoreServerEntry\<close>. \<open>protocol.ValidateServerEntryFields\<close> is not part of the
  sources at hand and is the parameter \<open>validate\<close>.
\<close>

definition StoreServerEntry ::
  "(ServerEntry \<Rightarrow> bool) \<Rightarrow> ServerEntry \<Rightarrow> bool \<Rightarrow> datastore option
     \<Rightarrow> error option \<times> datastore option" where
  "StoreServerEntry validate serverEntryFields replaceIfExists activeDatastoreDB =
     (if \<not> validate serverEntryFields then (Some InvalidServerEntry, activeDatastoreDB)
      else datastoreUpdate (\<lambda>tx.
        let ipAddress = IpAddress serverEntryFields;
            existingConfigurationVersion =
              (case bucket_get (serverEntries tx) ipAddress of
                 None \<Rightarrow> - 1
               | Some (Malformed _) \<Rightarrow> - 1
               | Some (Encoded existingServerEntry) \<Rightarrow>
                   ConfigurationVersion existingServerEntry);
            exists = (existingConfigurationVersion > - 1);
            newer = (exists \<and>
                     existingConfigurationVersion < ConfigurationVersion serverEntryFields);
            update = (\<not> exists \<or> replaceIfExists \<or> newer)
        in if \<not> update then (None, tx)
           else (None, tx\<lparr>serverEntries :=
                   bucket_put ipAddress (Encoded serverEntryFields) (serverEntries tx)\<rparr>))
        activeDatastoreDB)"

definition makeServerEntryFilterValue :: "Config \<Rightarrow> string" where
  "makeServerEntryFilterValue config = EgressRegion config"

definition PromoteServerEntry ::
  "Config \<Rightarrow> string \<Rightarrow> datastore option \<Rightarrow> error option \<times> datastore option" where
  "PromoteServerEntry config ipAddress activeDatastoreDB =
     datastoreUpdate (\<lambda>tx.
        let serverEntryID = ipAddress in
        (case bucket_get (serverEntries tx) serverEntryID of
           None \<Rightarrow> (None, tx)
         | Some _ \<Rightarrow>
             (let kv1 = bucket_put datastoreAffinityServerEntryIDKey serverEntryID
                          (keyValues tx);
                  currentFilter = makeServerEntryFilterValue config
              in (None, tx\<lparr>keyValues :=
                     bucket_put datastoreLastServerEntryFilterKey currentFilter kv1\<rparr>))))
       activeDatastoreDB"

text \<open>The configuration version a bucket holds for an address, when it decodes.\<close>

definition storedVersion :: "datastore \<Rightarrow> string \<Rightarrow> int option" where
  "storedVersion db ip =
     (case bucket_get (serverEntries db) ip of
        Some (Encoded e) \<Rightarrow> Some (ConfigurationVersion e)
      | _ \<Rightarrow> None)"

definition emptyStore :: datastore where
  "emptyStore = \<lparr>serverEntries = [], keyValues = [], dialParameters = []\<rparr>"

subsection \<open>The server-entry iterator\<close>

definition hasServerEntryFilterChanged :: "Config \<Rightarrow> datastore option \<Rightarrow> error + bool" where
  "hasServerEntryFilterChanged config activeDatastoreDB =
     (let currentFilter = makeServerEntryFilterValue config in
      datastoreView (\<lambda>tx.
        (case bucket_get (keyValues tx) datastoreLastServerEntryFilterKey of
           None \<Rightarrow> Inr True
         | Some previousFilter \<Rightarrow> Inr (previousFilter \<noteq> currentFilter)))
        activeDatastoreDB)"

record ServerEntryIterator =
  config :: Config
  applyServerAffinity :: bool
  serverEntryIDs :: "string list"
  serverEntryIndex :: nat
  isTacticsServerEntryIterator :: bool
  isTargetServerEntryIterator :: bool
  hasNextTargetServerEntry :: bool
  targetServerEntry :: "ServerEntry option"

definition Close :: "ServerEntryIterator \<Rightarrow> ServerEntryIterator" where
  "Close iterator = iterator\<lparr>serverEntryIDs := [], serverEntryIndex := 0\<rparr>"

definition MakeCompatibleServerEntry :: "ServerEntry \<Rightarrow> ServerEntry" where
  "MakeCompatibleServerEntry serverEntry =
     (if MeekFrontingAddresses serverEntry = [] \<and> MeekFrontingDomain serverEntry \<noteq> []
      then serverEntry\<lparr>MeekFrontingAddresses :=
             MeekFrontingAddresses serverEntry @ [MeekFrontingDomain serverEntry]\<rparr>
      else serverEntry)"

text \<open>
  Modelled from the spec: \<open>prng.Intn\<close> of the process-wide generator, whose package
  is missing; the spec has the slots "permuted uniformly at random". The raw outputs
  of the generator are an input of the model, a list consumed front to back;
  \<open>Intn n\<close> reduces the next one into \<open>[0, n)\<close>. Every sequence of results the
  generator can return is obtained from some list.
\<close>

fun Intn :: "nat list \<Rightarrow> nat \<Rightarrow> nat \<times> nat list" where
  "Intn [] n = (0, [])"
| "Intn (r # rs) n = (r mod n, rs)"

definition makeDialParametersKey :: "string \<Rightarrow> string \<Rightarrow> string" where
  "makeDialParametersKey serverIPAddress networkID = serverIPAddress @ networkID"

definition swap :: "nat \<Rightarrow> nat \<Rightarrow> 'a list \<Rightarrow> 'a list" where
  "swap i j xs = xs[i := xs ! j, j := xs ! i]"

text \<open>
  The key loop of \<open>reset\<close>: every key of the server-entry bucket in cursor order,
  except the affinity identifier when there is one.
\<close>

fun collectKeys :: "string option \<Rightarrow> string list \<Rightarrow> string list \<Rightarrow> string list" where
  "collectKeys affinityServerEntryID [] ids = ids"
| "collectKeys affinityServerEntryID (key # keys) ids =
     (if affinityServerEntryID = Some key
      then collectKeys affinityServerEntryID keys ids
      else collectKeys affinityServerEntryID keys (ids @ [key]))"

text \<open>
  The shuffle loop \<open>for i := len - 1; i > shuffleHead - 1; i--\<close>; the second argument
  is \<open>i + 1\<close>.
\<close>

fun shuffleFrom :: "nat \<Rightarrow> nat \<Rightarrow> nat list \<Rightarrow> 'a list \<Rightarrow> 'a list" where
  "shuffleFrom shuffleHead 0 rnd ids = ids"
| "shuffleFrom shuffleHead (Suc i) rnd ids =
     (if Suc i \<le> shuffleHead then ids
      else (case Intn rnd (i + 1 - shuffleHead) of
              (r, rnd') \<Rightarrow>
                shuffleFrom shuffleHead i rnd' (swap i (r + shuffleHead) ids)))"

text \<open>
  The replay partition: the two inner loops and the outer loop of \<open>reset\<close>, on Go's
  \<open>int\<close> indices (\<open>j\<close> starts at \<open>len - 1\<close>, which is \<open>-1\<close> for an empty list).
  \<open>has id\<close> is \<open>dialParamsBucket.get(makeDialParametersKey(id, networkID)) != nil\<close>.
\<close>

function advance :: "('a \<Rightarrow> bool) \<Rightarrow> 'a list \<Rightarrow> int \<Rightarrow> int \<Rightarrow> int" where
  "advance has ids i j = (if i < j \<and> has (ids ! nat i) then advance has ids (i + 1) j else i)"
  by pat_completeness auto
termination
  by (relation "measure (\<lambda>(has, ids, i, j). nat (j - i))") auto

declare advance.simps [simp del]

function retreat :: "('a \<Rightarrow> bool) \<Rightarrow> 'a list \<Rightarrow> int \<Rightarrow> int \<Rightarrow> int" where
  "retreat has ids i j = (if i < j \<and> \<not> has (ids ! nat j) then retreat has ids i (j - 1) else j)"
  by pat_completeness auto
termination
  by (relation "measure (\<lambda>(has, ids, i, j). nat (j - i))") auto

declare retreat.simps [simp del]

lemma advance_bounds: "i \<le> advance has ids i j \<and> advance has ids i j \<le> max i j"
proof (induction has ids i j rule: advance.induct)
  case (1 has ids i j)
  show ?case
  proof (cases "i < j \<and> has (ids ! nat i)")
    case True
    with 1 show ?thesis by (simp add: advance.simps [of has ids i j])
  next
    case False
    then show ?thesis by (auto simp add: advance.simps [of has ids i j])
  qed
qed

lemma retreat_bounds: "retreat has ids i j \<le> j \<and> min i j \<le> retreat has ids i j"
proof (induction has ids i j rule: retreat.induct)
  case (1 has ids i j)
  show ?case
  proof (cases "i < j \<and> \<not> has (ids ! nat j)")
    case True
    with 1 show ?thesis by (simp add: retreat.simps [of has ids i j])
  next
    case False
    then show ?thesis by (auto simp add: retreat.simps [of has ids i j])
  qed
qed

function partitionLoop :: "('a \<Rightarrow> bool) \<Rightarrow> int \<Rightarrow> int \<Rightarrow> 'a list \<Rightarrow> 'a list" where
  "partitionLoop has i j ids =
     (let i' = advance has ids i j;
          j' = retreat has ids i' j
      in if i' < j'
         then partitionLoop has (i' + 1) (j' - 1) (swap (nat i') (nat j') ids)
         else ids)"
  by pat_completeness auto
termination
proof (relation "measure (\<lambda>(has, i, j, ids). nat (j - i + 1))", goal_cases)
  case 1
  show ?case by simp
next
  case (2 has i j ids i' j')
  from 2 advance_bounds [of i has ids j] retreat_bounds [of has ids i' j]
  show ?case by auto
qed

declare partitionLoop.simps [simp del]

definition hasDialParameters :: "datastore \<Rightarrow> string \<Rightarrow> string \<Rightarrow> bool" where
  "hasDialParameters tx networkID serverEntryID =
     (bucket_get (dialParameters tx) (makeDialParametersKey serverEntryID networkID) \<noteq> None)"

text \<open>
  The identifier list \<open>reset\<close> builds inside its read transaction: the slot at
  which the shuffled region starts, the list after the shuffle, and the list after the
  replay partition.
\<close>

definition resetAffinity :: "bool \<Rightarrow> ServerEntryIterator \<Rightarrow> datastore \<Rightarrow> string option" where
  "resetAffinity isInitialRound iterator tx =
     (if isInitialRound \<and> applyServerAffinity iterator
      then bucket_get (keyValues tx) datastoreAffinityServerEntryIDKey
      else None)"

definition resetShuffleHead :: "bool \<Rightarrow> ServerEntryIterator \<Rightarrow> datastore \<Rightarrow> nat" where
  "resetShuffleHead isInitialRound iterator tx =
     (case resetAffinity isInitialRound iterator tx of None \<Rightarrow> 0 | Some _ \<Rightarrow> 1)"

definition resetShuffled ::
  "bool \<Rightarrow> ServerEntryIterator \<Rightarrow> nat list \<Rightarrow> datastore \<Rightarrow> string list" where
  "resetShuffled isInitialRound iterator rnd tx =
     (let affinityServerEntryID = resetAffinity isInitialRound iterator tx;
          shuffleHead = resetShuffleHead isInitialRound iterator tx;
          ids0 = (case affinityServerEntryID of None \<Rightarrow> [] | Some a \<Rightarrow> [a]);
          ids1 = collectKeys affinityServerEntryID (cursor_keys (serverEntries tx)) ids0
      in shuffleFrom shuffleHead (length ids1) rnd ids1)"

definition resetIDs ::
  "bool \<Rightarrow> ServerEntryIterator \<Rightarrow> nat list \<Rightarrow> datastore \<Rightarrow> string list" where
  "resetIDs isInitialRound iterator rnd tx =
     (let shuffleHead = resetShuffleHead isInitialRound iterator tx;
          ids2 = resetShuffled isInitialRound iterator rnd tx
      in if isInitialRound \<and> ReplayCandidateCount (config iterator) > 0
         then partitionLoop (hasDialParameters tx (NetworkID (config iterator)))
                (int shuffleHead) (int (length ids2) - 1) ids2
         else ids2)"

definition reset ::
  "bool \<Rightarrow> ServerEntryIterator \<Rightarrow> nat list \<Rightarrow> datastore option
     \<Rightarrow> error + ServerEntryIterator" where
  "reset isInitialRound iterator rnd activeDatastoreDB =
     (let closed = Close iterator in
      if isTargetServerEntryIterator closed
      then Inr (closed\<lparr>hasNextTargetServerEntry := True\<rparr>)
      else (case datastoreView (\<lambda>tx. Inr (resetIDs isInitialRound closed rnd tx))
                   activeDatastoreDB of
              Inl e \<Rightarrow> Inl e
            | Inr ids \<Rightarrow> Inr (closed\<lparr>serverEntryIDs := ids, serverEntryIndex := 0\<rparr>)))"

text \<open>
  \<open>newTargetServerEntryIterator\<close> for a tunnel iterator. The check against the
  limited tunnel protocols needs \<open>GetSupportedProtocols\<close>, which is not part of the
  sources at hand; its outcome is the parameter \<open>supportsLimitTunnelProtocols\<close>.
\<close>

definition newTargetServerEntryIterator ::
  "bool \<Rightarrow> Config \<Rightarrow> stored \<Rightarrow> error + bool \<times> ServerEntryIterator" where
  "newTargetServerEntryIterator supportsLimitTunnelProtocols cfg target =
     (case target of
        Malformed _ \<Rightarrow> Inl TargetDecodeFailed
      | Encoded serverEntry \<Rightarrow>
          if EgressRegion cfg \<noteq> [] \<and> Region serverEntry \<noteq> EgressRegion cfg
          then Inl TargetNoEgressRegion
          else if \<not> supportsLimitTunnelProtocols then Inl TargetNoLimitTunnelProtocols
          else Inr (False,
                 \<lparr>config = cfg, applyServerAffinity = False, serverEntryIDs = [],
                  serverEntryIndex = 0, isTacticsServerEntryIterator = False,
                  isTargetServerEntryIterator = True, hasNextTargetServerEntry = True,
                  targetServerEntry = Some serverEntry\<rparr>))"

definition NewServerEntryIterator ::
  "bool \<Rightarrow> Config \<Rightarrow> nat list \<Rightarrow> datastore option \<Rightarrow> error + bool \<times> ServerEntryIterator" where
  "NewServerEntryIterator supportsLimitTunnelProtocols cfg rnd activeDatastoreDB =
     (case TargetServerEntry cfg of
        Some target \<Rightarrow> newTargetServerEntryIterator supportsLimitTunnelProtocols cfg target
      | None \<Rightarrow>
          (case hasServerEntryFilterChanged cfg activeDatastoreDB of
             Inl e \<Rightarrow> Inl e
           | Inr filterChanged \<Rightarrow>
               (let applyAffinity = (\<not> filterChanged);
                    iterator = \<lparr>config = cfg, applyServerAffinity = applyAffinity,
                      serverEntryIDs = [], serverEntryIndex = 0,
                      isTacticsServerEntryIterator = False,
                      isTargetServerEntryIterator = False,
                      hasNextTargetServerEntry = False, targetServerEntry = None\<rparr>
                in (case reset True iterator rnd activeDatastoreDB of
                      Inl e \<Rightarrow> Inl e
                    | Inr iterator' \<Rightarrow> Inr (applyAffinity, iterator')))))"

text \<open>
  The filter \<open>Next\<close> applies to a decoded entry, and its loop over the identifier
  list. The loop skips identifiers whose record is missing or does not decode.
\<close>

definition passesFilter :: "ServerEntryIterator \<Rightarrow> ServerEntry \<Rightarrow> bool" where
  "passesFilter iterator serverEntry =
     (if isTacticsServerEntryIterator iterator
      then TacticsProtocols serverEntry \<noteq> []
      else EgressRegion (config iterator) = [] \<or>
           Region serverEntry = EgressRegion (config iterator))"

function NextLoop ::
  "ServerEntryIterator \<Rightarrow> datastore option
     \<Rightarrow> (error + ServerEntry option) \<times> ServerEntryIterator" where
  "NextLoop iterator activeDatastoreDB =
     (if serverEntryIndex iterator \<ge> length (serverEntryIDs iterator)
      then (Inr None, iterator)
      else
        (let serverEntryID = serverEntryIDs iterator ! serverEntryIndex iterator;
             iterator' = iterator\<lparr>serverEntryIndex := serverEntryIndex iterator + 1\<rparr>
         in (case datastoreView (\<lambda>tx. Inr (bucket_get (serverEntries tx) serverEntryID))
                    activeDatastoreDB of
               Inl e \<Rightarrow> (Inl e, Close iterator')
             | Inr None \<Rightarrow> NextLoop iterator' activeDatastoreDB
             | Inr (Some (Malformed _)) \<Rightarrow> NextLoop iterator' activeDatastoreDB
             | Inr (Some (Encoded serverEntry)) \<Rightarrow>
                 if passesFilter iterator' serverEntry
                 then (Inr (Some (MakeCompatibleServerEntry serverEntry)), iterator')
                 else NextLoop iterator' activeDatastoreDB)))"
  by pat_completeness auto
termination
  by (relation "measure (\<lambda>(iterator, db).
        length (serverEntryIDs iterator) - serverEntryIndex iterator)") auto

declare NextLoop.simps [simp del]

definition Next ::
  "ServerEntryIterator \<Rightarrow> datastore option
     \<Rightarrow> (error + ServerEntry option) \<times> ServerEntryIterator" where
  "Next iterator activeDatastoreDB =
     (if isTargetServerEntryIterator iterator
      then (if hasNextTargetServerEntry iterator
            then (Inr (map_option MakeCompatibleServerEntry (targetServerEntry iterator)),
                  iterator\<lparr>hasNextTargetServerEntry := False\<rparr>)
            else (Inr None, iterator))
      else NextLoop iterator activeDatastoreDB)"

text \<open>Constructing an iterator and calling \<open>Next\<close> on it once.\<close>

definition firstNext ::
  "bool \<Rightarrow> Config \<Rightarrow> nat list \<Rightarrow> datastore option
     \<Rightarrow> error + bool \<times> (error + ServerEntry option)" where
  "firstNext supportsLimitTunnelProtocols cfg rnd activeDatastoreDB =
     (case NewServerEntryIterator supportsLimitTunnelProtocols cfg rnd activeDatastoreDB of
        Inl e \<Rightarrow> Inl e
      | Inr (applyAffinity, iterator) \<Rightarrow>
          Inr (applyAffinity, fst (Next iterator activeDatastoreDB)))"

text \<open>
  The states of the store that its own operations produce from an empty store:
  \<open>StoreServerEntry\<close>, \<open>PromoteServerEntry\<close>, the writes and deletions of
  dial-parameter records, and \<open>SetKeyValue\<close> on a key other than the two reserved
  for the affinity identifier and the filter value.
\<close>

inductive reachable :: "datastore \<Rightarrow> bool" where
  reach_empty: "reachable emptyStore"
| reach_store:
    "reachable db \<Longrightarrow> StoreServerEntry validate E r (Some db) = (None, Some db')
       \<Longrightarrow> reachable db'"
| reach_promote:
    "reachable db \<Longrightarrow> PromoteServerEntry cfg ip (Some db) = (None, Some db')
       \<Longrightarrow> reachable db'"
| reach_dial:
    "reachable db \<Longrightarrow> reachable (db\<lparr>dialParameters := dp\<rparr>)"
| reach_keyValue:
    "reachable db \<Longrightarrow> k \<noteq> datastoreLastServerEntryFilterKey
       \<Longrightarrow> k \<noteq> datastoreAffinityServerEntryIDKey
       \<Longrightarrow> reachable (db\<lparr>keyValues := bucket_put k v (keyValues db)\<rparr>)"

text \<open>
  What holds of every such state: the filter value and the affinity identifier are
  present together, the affinity identifier has a record, and every record decodes.
\<close>

definition storeInv :: "datastore \<Rightarrow> bool" where
  "storeInv db =
     ((bucket_get (keyValues db) datastoreLastServerEntryFilterKey \<noteq> None \<longleftrightarrow>
       bucket_get (keyValues db) datastoreAffinityServerEntryIDKey \<noteq> None) \<and>
      (\<forall>a. bucket_get (keyValues db) datastoreAffinityServerEntryIDKey = Some a \<longrightarrow>
           bucket_get (serverEntries db) a \<noteq> None) \<and>
      (\<forall>k d. bucket_get (serverEntries db) k = Some d \<longrightarrow> (\<exists>e. d = Encoded e)))"

text \<open>
  The replay partition's postcondition on a list: from slot \<open>h\<close> on, no identifier
  without a record stands before one with a record.
\<close>

definition partitioned :: "('a \<Rightarrow> bool) \<Rightarrow> nat \<Rightarrow> 'a list \<Rightarrow> bool" where
  "partitioned has h xs =
     (\<forall>p q. h \<le> p \<and> p < q \<and> q < length xs \<and> has (xs ! q) \<longrightarrow> has (xs ! p))"

text \<open>The invariant of the outer partition loop, on its \<open>int\<close> indices.\<close>

definition partInv :: "('a \<Rightarrow> bool) \<Rightarrow> int \<Rightarrow> int \<Rightarrow> int \<Rightarrow> 'a list \<Rightarrow> bool" where
  "partInv has h i j xs =
     ((\<forall>p. h \<le> p \<and> p < i \<longrightarrow> has (xs ! nat p)) \<and>
      (\<forall>q. j < q \<and> q < int (length xs) \<longrightarrow> \<not> has (xs ! nat q)))"

subsection \<open>Concrete stores used as inputs\<close>

definition acceptAll :: "ServerEntry \<Rightarrow> bool" where
  "acceptAll e = True"

definition entryA :: ServerEntry where
  "entryA = \<lparr>IpAddress = ''192.0.2.1'', Region = ''CA'', ConfigurationVersion = 1,
             TacticsProtocols = [], MeekFrontingAddresses = [], MeekFrontingDomain = []\<rparr>"

definition entryB :: ServerEntry where
  "entryB = \<lparr>IpAddress = ''192.0.2.2'', Region = ''US'', ConfigurationVersion = 1,
             TacticsProtocols = [], MeekFrontingAddresses = [], MeekFrontingDomain = []\<rparr>"

definition storeAB :: datastore where
  "storeAB = emptyStore\<lparr>serverEntries :=
      [(''192.0.2.1'', Encoded entryA), (''192.0.2.2'', Encoded entryB)]\<rparr>"

definition configUS :: Config where
  "configUS = \<lparr>EgressRegion = ''US'', TargetServerEntry = None, NetworkID = ''wifi'',
                ReplayCandidateCount = 1\<rparr>"

definition storeReplay :: datastore where
  "storeReplay = storeAB\<lparr>dialParameters := [(''192.0.2.1wifi'', [1])]\<rparr>"

definition freshIterator :: ServerEntryIterator where
  "freshIterator = \<lparr>config = configUS, applyServerAffinity = False,
      serverEntryIDs = [], serverEntryIndex = 0, isTacticsServerEntryIterator = False,
      isTargetServerEntryIterator = False, hasNextTargetServerEntry = False,
      targetServerEntry = None\<rparr>"

definition storePromoted :: datastore where
  "storePromoted = storeAB\<lparr>keyValues :=
      [(''affinityServerEntryID'', ''192.0.2.1''), (''lastServerEntryFilter'', ''US'')]\<rparr>"

definition configCA :: Config where
  "configCA = configUS\<lparr>EgressRegion := ''CA''\<rparr>"

definition storePromotedCA :: datastore where
  "storePromotedCA = storeAB\<lparr>keyValues :=
      [(''affinityServerEntryID'', ''192.0.2.1''), (''lastServerEntryFilter'', ''CA'')]\<rparr>"

section \<open>The obfuscator (psiphon/common/obfuscator)\<close>

definition OBFUSCATE_SEED_LENGTH :: nat where "OBFUSCATE_SEED_LENGTH = 16"
definition OBFUSCATE_KEY_LENGTH :: nat where "OBFUSCATE_KEY_LENGTH = 16"
definition OBFUSCATE_HASH_ITERATIONS :: nat where "OBFUSCATE_HASH_ITERATIONS = 6000"
definition OBFUSCATE_MAX_PADDING :: int where "OBFUSCATE_MAX_PADDING = 8192"
definition OBFUSCATE_MAGIC_VALUE :: int where "OBFUSCATE_MAGIC_VALUE = 0x0BF5CA7E"
definition OBFUSCATE_CLIENT_TO_SERVER_IV :: string where
  "OBFUSCATE_CLIENT_TO_SERVER_IV = ''client_to_server''"
definition OBFUSCATE_SERVER_TO_CLIENT_IV :: string where
  "OBFUSCATE_SERVER_TO_CLIENT_IV = ''server_to_client''"

text \<open>
  What the obfuscator takes from outside its own file, as parameters: SHA-1 and RC4
  of the Go standard library, and \<open>prng.SEED_LENGTH\<close> and \<open>PRNG.Padding\<close> of the
  \<open>prng\<close> package, which is not part of the sources at hand. \<open>sha1Sum\<close> is one
  \<open>Reset\<close>, \<open>Write\<close>, \<open>Sum(nil)\<close>; \<open>rc4Next\<close> produces one byte of keystream;
  \<open>Padding seed min max\<close> is the first \<open>Padding(min, max)\<close> of a generator made
  from \<open>seed\<close>. \<open>'c\<close> is the cipher state.
\<close>

record 'c obfLib =
  sha1Sum :: "bytes \<Rightarrow> bytes"
  rc4NewCipher :: "bytes \<Rightarrow> error + 'c"
  rc4Next :: "'c \<Rightarrow> byte \<times> 'c"
  SEED_LENGTH :: nat
  Padding :: "bytes \<Rightarrow> int \<Rightarrow> int \<Rightarrow> bytes"

text \<open>
  The outcomes of the system's random source, as inputs: \<open>secureRandom n\<close> is what
  \<open>crypto/rand.Read\<close> gives for an \<open>n\<close>-byte buffer, \<open>newSeed\<close> what
  \<open>prng.NewSeed()\<close> returns.
\<close>

record obfEnv =
  secureRandom :: "nat \<Rightarrow> error + bytes"
  newSeed :: "error + bytes"

record ObfuscatorConfig =
  Keyword :: string
  PaddingPRNGSeed :: "bytes option"
  MinPadding :: "int option"
  MaxPadding :: "int option"



definition stringBytes :: "string \<Rightarrow> bytes" where
  "stringBytes s = map (\<lambda>c. of_nat (of_char c)) s"

text \<open>Big-endian 32-bit fields, as \<open>encoding/binary\<close> writes and reads them.\<close>

definition putUint32 :: "nat \<Rightarrow> bytes" where
  "putUint32 n = [of_nat (n div 16777216), of_nat (n div 65536), of_nat (n div 256), of_nat n]"

definition beUint :: "bytes \<Rightarrow> nat" where
  "beUint bs = foldl (\<lambda>acc b. acc * 256 + unat b) 0 bs"

definition readInt32 :: "bytes \<Rightarrow> int" where
  "readInt32 bs = sint (of_nat (beUint bs) :: 32 word)"

text \<open>\<open>XORKeyStream(buffer, buffer)\<close>: in place, one keystream byte for each byte.\<close>

fun XORKeyStream :: "('c \<Rightarrow> byte \<times> 'c) \<Rightarrow> 'c \<Rightarrow> bytes \<Rightarrow> bytes \<times> 'c" where
  "XORKeyStream nxt c [] = ([], c)"
| "XORKeyStream nxt c (b # bs) =
     (case nxt c of
        (k, c') \<Rightarrow>
          (case XORKeyStream nxt c' bs of
             (out, c'') \<Rightarrow> ((b XOR k) # out, c'')))"

fun rehash :: "(bytes \<Rightarrow> bytes) \<Rightarrow> nat \<Rightarrow> bytes \<Rightarrow> bytes" where
  "rehash h 0 digest = digest"
| "rehash h (Suc n) digest = rehash h n (h digest)"

definition deriveKey :: "'c obfLib \<Rightarrow> bytes \<Rightarrow> bytes \<Rightarrow> bytes \<Rightarrow> error + bytes" where
  "deriveKey lib obfuscatorSeed keyword iv =
     (let digest0 = sha1Sum lib (obfuscatorSeed @ keyword @ iv);
          digest = rehash (sha1Sum lib) OBFUSCATE_HASH_ITERATIONS digest0
      in if length digest < OBFUSCATE_KEY_LENGTH then Inl InsufficientKeyBytes
         else Inr (take OBFUSCATE_KEY_LENGTH digest))"

definition initObfuscatorCiphers ::
  "'c obfLib \<Rightarrow> bytes \<Rightarrow> ObfuscatorConfig \<Rightarrow> error + 'c \<times> 'c" where
  "initObfuscatorCiphers lib obfuscatorSeed cfg =
     (case deriveKey lib obfuscatorSeed (stringBytes (Keyword cfg))
             (stringBytes OBFUSCATE_CLIENT_TO_SERVER_IV) of
        Inl e \<Rightarrow> Inl e
      | Inr clientToServerKey \<Rightarrow>
     (case deriveKey lib obfuscatorSeed (stringBytes (Keyword cfg))
             (stringBytes OBFUSCATE_SERVER_TO_CLIENT_IV) of
        Inl e \<Rightarrow> Inl e
      | Inr serverToClientKey \<Rightarrow>
     (case rc4NewCipher lib clientToServerKey of
        Inl e \<Rightarrow> Inl e
      | Inr c2s \<Rightarrow>
     (case rc4NewCipher lib serverToClientKey of
        Inl e \<Rightarrow> Inl e
      | Inr s2c \<Rightarrow> Inr (c2s, s2c)))))"





text \<open>
  The client stream is the list of bytes still to come. \<open>io.ReadFull\<close> takes exactly
  \<open>n\<close> of them, or fails on a shorter stream, which it has then used up.
\<close>

definition readFull :: "nat \<Rightarrow> bytes \<Rightarrow> (error + bytes) \<times> bytes" where
  "readFull n clientReader =
     (if length clientReader < n then (Inl UnexpectedEOF, [])
      else (Inr (take n clientReader), drop n clientReader))"

text \<open>
  \<open>readSeedMessage\<close>, returning its result together with what is left of the client
  stream.
\<close>

definition readSeedMessage ::
  "'c obfLib \<Rightarrow> obfEnv \<Rightarrow> ObfuscatorConfig \<Rightarrow> bytes
     \<Rightarrow> (error + 'c \<times> 'c \<times> bytes) \<times> bytes" where
  "readSeedMessage lib env cfg clientReader =
     (case readFull OBFUSCATE_SEED_LENGTH clientReader of
        (Inl e, r1) \<Rightarrow> (Inl e, r1)
      | (Inr seed, r1) \<Rightarrow>
     (case initObfuscatorCiphers lib seed cfg of
        Inl e \<Rightarrow> (Inl e, r1)
      | Inr (c2s, s2c) \<Rightarrow>
     (case readFull 8 r1 of
        (Inl e, r2) \<Rightarrow> (Inl e, r2)
      | (Inr fixedLengthFields, r2) \<Rightarrow>
     (case XORKeyStream (rc4Next lib) c2s fixedLengthFields of
        (plainFields, c2s1) \<Rightarrow>
          (let magicValue = readInt32 (take 4 plainFields);
               padLen = readInt32 (drop 4 plainFields)
           in if magicValue \<noteq> OBFUSCATE_MAGIC_VALUE then (Inl InvalidMagicValue, r2)
              else if padLen < 0 \<or> padLen > OBFUSCATE_MAX_PADDING
              then (Inl InvalidPaddingLength, r2)
              else
                (case readFull (nat padLen) r2 of
                   (Inl e, r3) \<Rightarrow> (Inl e, r3)
                 | (Inr padding, r3) \<Rightarrow>
                (case XORKeyStream (rc4Next lib) c2s1 padding of
                   (plainPadding, c2s2) \<Rightarrow>
                     if length padding \<ge> SEED_LENGTH lib
                     then (Inr (c2s2, s2c, take (SEED_LENGTH lib) plainPadding), r3)
                     else (case newSeed env of
                             Inl e \<Rightarrow> (Inl e, r3)
                           | Inr fresh \<Rightarrow> (Inr (c2s2, s2c, fresh), r3)))))))))"

subsection \<open>Concrete inputs for the obfuscator\<close>

text \<open>
  A stand-in library for running the model: the digest is twenty zero bytes, the
  keystream is zero, so the bytes on the wire are the plain fields; the seed length is
  that of the \<open>prng\<close> package, and the padding has the minimum length.
\<close>

definition plainLib :: "unit obfLib" where
  "plainLib = \<lparr>sha1Sum = (\<lambda>bs. replicate 20 0), rc4NewCipher = (\<lambda>key. Inr ()),
      rc4Next = (\<lambda>c. (0, c)), SEED_LENGTH = 32,
      Padding = (\<lambda>seed minLen maxLen. replicate (nat minLen) 0)\<rparr>"

definition goodEnv :: obfEnv where
  "goodEnv = \<lparr>secureRandom = (\<lambda>n. Inr (replicate n 7)), newSeed = Inr (replicate 32 9)\<rparr>"

definition clientConfig :: ObfuscatorConfig where
  "clientConfig = \<lparr>Keyword = ''k'', PaddingPRNGSeed = Some (replicate 32 1),
      MinPadding = None, MaxPadding = None\<rparr>"

definition failingEnv :: obfEnv where
  "failingEnv = goodEnv\<lparr>newSeed := Inl RandomSourceFailed\<rparr>"

definition shortPaddingMessage :: bytes where
  "shortPaddingMessage =
     replicate 16 7 @ putUint32 (nat OBFUSCATE_MAGIC_VALUE) @ putUint32 5 @ replicate 5 3"

section \<open>The TLS dialer (psiphon/tlsDialer.go)\<close>

text \<open>
  The profile names are constants of the \<open>protocol\<close> package; \<open>OtherProfile\<close> is any
  other non-empty string. The empty string of \<open>CustomTLSConfig.TLSProfile\<close> is
  \<^const>\<open>None\<close>.
\<close>

datatype TLSProfile =
    TLS_PROFILE_IOS_1131
  | TLS_PROFILE_ANDROID_60
  | TLS_PROFILE_ANDROID_51
  | TLS_PROFILE_CHROME_58
  | TLS_PROFILE_CHROME_57
  | TLS_PROFILE_FIREFOX_56
  | TLS_PROFILE_RANDOMIZED
  | TLS_PROFILE_TLS13_RANDOMIZED
  | OtherProfile string

datatype ClientHelloID =
    HelloFirefox_56 | HelloFirefox_55
  | HelloAndroid_6_0_Browser | HelloAndroid_5_1_Browser
  | HelloChrome_62 | HelloChrome_58 | HelloChrome_57
  | HelloiOSSafari_11_3_1
  | HelloRandomizedALPN | HelloRandomizedNoALPN
  | HelloCustom
  | HelloRandomized | HelloAndroid_Auto | HelloFirefox_Auto | HelloChrome_Auto
  | HelloGolang

definition useUTLS :: "TLSProfile \<Rightarrow> bool" where
  "useUTLS tlsProfile = (tlsProfile \<noteq> TLS_PROFILE_TLS13_RANDOMIZED)"

fun getUTLSClientHelloID :: "TLSProfile \<Rightarrow> ClientHelloID" where
  "getUTLSClientHelloID TLS_PROFILE_IOS_1131 = HelloiOSSafari_11_3_1"
| "getUTLSClientHelloID TLS_PROFILE_ANDROID_60 = HelloAndroid_6_0_Browser"
| "getUTLSClientHelloID TLS_PROFILE_ANDROID_51 = HelloAndroid_5_1_Browser"
| "getUTLSClientHelloID TLS_PROFILE_CHROME_58 = HelloChrome_58"
| "getUTLSClientHelloID TLS_PROFILE_CHROME_57 = HelloChrome_57"
| "getUTLSClientHelloID TLS_PROFILE_FIREFOX_56 = HelloFirefox_56"
| "getUTLSClientHelloID TLS_PROFILE_RANDOMIZED = HelloRandomized"
| "getUTLSClientHelloID _ = HelloGolang"

record CustomTLSConfig =
  DialAddr :: string
  UseDialAddrSNI :: bool
  SNIServerName :: string
  SkipVerify :: bool
  VerifyLegacyCertificate :: "bytes option"
  TLSProfile :: "TLSProfile option"
  RandomizedTLSProfileSeed :: "bytes option"
  TrustedCACertificatesFilename :: string
  ObfuscatedSessionTicketKey :: string

text \<open>
  The TLS connection object both providers are wrapped into: what it was configured
  with, and, once the handshake is through, the peer certificates (their raw DER) and
  the ALPN outcome. It is a \<open>net.Conn\<close> over the raw connection, so it has
  \<open>Read\<close>, \<open>Write\<close> and \<open>Close\<close>; \<open>GetPeerCertificates\<close> and \<open>IsHTTP2\<close>
  are the two methods defined in this file.
\<close>

record tlsConn =
  connProfile :: TLSProfile
  connServerName :: string
  connInsecureSkipVerify :: bool
  connRootCAs :: "bytes option"
  connSeed :: "bytes option"
  connSessionTicketKey :: "bytes option"
  PeerCertificates :: "bytes list"
  NegotiatedProtocolIsMutual :: bool
  NegotiatedProtocol :: string

definition GetPeerCertificates :: "tlsConn \<Rightarrow> bytes list" where
  "GetPeerCertificates conn = PeerCertificates conn"

definition IsHTTP2 :: "tlsConn \<Rightarrow> bool" where
  "IsHTTP2 conn = (NegotiatedProtocolIsMutual conn \<and> NegotiatedProtocol conn = ''h2'')"

text \<open>
  Everything the dial takes from outside this file is an input: the outcome of the raw
  dial, of \<open>net.SplitHostPort\<close>, of the random profile selection, of
  \<open>hex.DecodeString\<close>, of reading the CA file, of \<open>prng.NewSeed\<close>, of
  \<open>utls.NewObfuscatedClientSessionState\<close>, of the handshake (an error, or the
  connection state it establishes), of the chain verification, the two predicates of
  the \<open>protocol\<close> package, and whether the context is done before the handshake
  returns, with the context's error.
\<close>

record dialEnv =
  dialResult :: "string \<Rightarrow> string \<Rightarrow> error option"
  splitHostPort :: "string \<Rightarrow> error + string \<times> string"
  selectTLSProfile :: "TLSProfile option"
  hexDecodeString :: "string \<Rightarrow> error + bytes"
  readFile :: "string \<Rightarrow> error + bytes"
  dialNewSeed :: "error + bytes"
  TLSProfileIsRandomized :: "TLSProfile option \<Rightarrow> bool"
  TLSProfileIsTLS13 :: "TLSProfile option \<Rightarrow> bool"
  newObfuscatedClientSessionState :: "bytes \<Rightarrow> error option"
  handshakeResult :: "tlsConn \<Rightarrow> error + tlsConn"
  ctxDoneFirst :: bool
  ctxErr :: error
  verifyChain :: "bytes list \<Rightarrow> string \<Rightarrow> error option"

text \<open>
  What a call leaves behind: the returned connection or error, whether a raw
  connection was opened, and how many times \<open>rawConn.Close()\<close> was called on it.
\<close>

record dialOutcome =
  returned :: "error + tlsConn"
  rawOpened :: bool
  rawCloses :: nat

definition verifyLegacyCertificate :: "tlsConn \<Rightarrow> bytes \<Rightarrow> error option" where
  "verifyLegacyCertificate conn expectedCertificate =
     (case GetPeerCertificates conn of
        [] \<Rightarrow> Some NoCertificateToVerify
      | cert # _ \<Rightarrow> if cert \<noteq> expectedCertificate then Some UnexpectedCertificate else None)"

definition verifyServerCerts :: "dialEnv \<Rightarrow> tlsConn \<Rightarrow> string \<Rightarrow> error option" where
  "verifyServerCerts env conn hostname =
     (case GetPeerCertificates conn of
        [] \<Rightarrow> Some IndexOutOfRange
      | cert # intermediates \<Rightarrow> verifyChain env (cert # intermediates) hostname)"

text \<open>The steps of \<open>CustomTLSDial\<close> between the address split and the handshake.\<close>

definition decodeSessionTicketKey :: "dialEnv \<Rightarrow> CustomTLSConfig \<Rightarrow> error + bytes option" where
  "decodeSessionTicketKey env cfg =
     (if ObfuscatedSessionTicketKey cfg \<noteq> []
      then (case hexDecodeString env (ObfuscatedSessionTicketKey cfg) of
              Inl e \<Rightarrow> Inl e
            | Inr key \<Rightarrow> if length key \<noteq> 32 then Inl InvalidSessionKeyLength
                         else Inr (Some key))
      else Inr None)"

definition loadRootCAs :: "dialEnv \<Rightarrow> CustomTLSConfig \<Rightarrow> error + bytes option" where
  "loadRootCAs env cfg =
     (if \<not> SkipVerify cfg \<and> VerifyLegacyCertificate cfg = None \<and>
         TrustedCACertificatesFilename cfg \<noteq> []
      then (case readFile env (TrustedCACertificatesFilename cfg) of
              Inl e \<Rightarrow> Inl e
            | Inr certData \<Rightarrow> Inr (Some certData))
      else Inr None)"

definition chooseSeed ::
  "dialEnv \<Rightarrow> CustomTLSConfig \<Rightarrow> TLSProfile option \<Rightarrow> error + bytes option" where
  "chooseSeed env cfg selectedTLSProfile =
     (if TLSProfileIsRandomized env selectedTLSProfile \<and> RandomizedTLSProfileSeed cfg = None
      then (case dialNewSeed env of Inl e \<Rightarrow> Inl e | Inr s \<Rightarrow> Inr (Some s))
      else Inr (RandomizedTLSProfileSeed cfg))"

definition makeConn ::
  "dialEnv \<Rightarrow> TLSProfile option \<Rightarrow> string \<Rightarrow> bool \<Rightarrow> bytes option \<Rightarrow> bytes option
     \<Rightarrow> bytes option \<Rightarrow> error + tlsConn" where
  "makeConn env selectedTLSProfile serverName insecureSkipVerify rootCAs seed ticketKey =
     (let profile = (case selectedTLSProfile of None \<Rightarrow> OtherProfile [] | Some p \<Rightarrow> p);
          conn = \<lparr>connProfile = profile, connServerName = serverName,
                  connInsecureSkipVerify = insecureSkipVerify, connRootCAs = rootCAs,
                  connSeed = seed, connSessionTicketKey = ticketKey,
                  PeerCertificates = [], NegotiatedProtocolIsMutual = False,
                  NegotiatedProtocol = []\<rparr>
      in if useUTLS profile
         then (case ticketKey of
                 None \<Rightarrow> Inr conn
               | Some key \<Rightarrow>
                   (case newObfuscatedClientSessionState env key of
                      Some e \<Rightarrow> Inl e
                    | None \<Rightarrow> Inr conn))
         else if \<not> TLSProfileIsTLS13 env selectedTLSProfile then Inl NotTLS13
         else Inr (conn\<lparr>connSessionTicketKey := None\<rparr>))"

definition CustomTLSDial ::
  "dialEnv \<Rightarrow> string \<Rightarrow> string \<Rightarrow> CustomTLSConfig \<Rightarrow> dialOutcome" where
  "CustomTLSDial env network addr cfg =
     (let dialAddr = (if DialAddr cfg \<noteq> [] then DialAddr cfg else addr) in
      case dialResult env network dialAddr of
        Some e \<Rightarrow> \<lparr>returned = Inl e, rawOpened = False, rawCloses = 0\<rparr>
      | None \<Rightarrow>
     (case splitHostPort env dialAddr of
        Inl e \<Rightarrow> \<lparr>returned = Inl e, rawOpened = True, rawCloses = 1\<rparr>
      | Inr (hostname, port) \<Rightarrow>
     (let selectedTLSProfile =
            (if TLSProfile cfg = None then selectTLSProfile env else TLSProfile cfg);
          tlsConfigServerName =
            (if UseDialAddrSNI cfg then hostname
             else if SNIServerName cfg \<noteq> [] \<and> VerifyLegacyCertificate cfg = None
             then SNIServerName cfg else []);
          tlsConfigInsecureSkipVerify =
            (SkipVerify cfg \<or>
             \<not> (UseDialAddrSNI cfg \<or>
                (SNIServerName cfg \<noteq> [] \<and> VerifyLegacyCertificate cfg = None)))
      in
     (case decodeSessionTicketKey env cfg of
        Inl e \<Rightarrow> \<lparr>returned = Inl e, rawOpened = True, rawCloses = 0\<rparr>
      | Inr ticketKey \<Rightarrow>
     (case loadRootCAs env cfg of
        Inl e \<Rightarrow> \<lparr>returned = Inl e, rawOpened = True, rawCloses = 0\<rparr>
      | Inr tlsRootCAs \<Rightarrow>
     (case chooseSeed env cfg selectedTLSProfile of
        Inl e \<Rightarrow> \<lparr>returned = Inl e, rawOpened = True, rawCloses = 0\<rparr>
      | Inr randomizedTLSProfileSeed \<Rightarrow>
     (case makeConn env selectedTLSProfile tlsConfigServerName tlsConfigInsecureSkipVerify
             tlsRootCAs randomizedTLSProfileSeed ticketKey of
        Inl e \<Rightarrow> \<lparr>returned = Inl e, rawOpened = True, rawCloses = 0\<rparr>
      | Inr conn \<Rightarrow>
          (let raced =
                 (if ctxDoneFirst env then (Inl (ctxErr env), 1)
                  else (handshakeResult env conn, 0));
               verified =
                 (case fst raced of
                    Inl e \<Rightarrow> Inl e
                  | Inr conn' \<Rightarrow>
                      if \<not> SkipVerify cfg \<and> tlsConfigInsecureSkipVerify
                      then (case (case VerifyLegacyCertificate cfg of
                                    Some expected \<Rightarrow> verifyLegacyCertificate conn' expected
                                  | None \<Rightarrow> verifyServerCerts env conn' hostname) of
                              Some e \<Rightarrow> Inl e
                            | None \<Rightarrow> Inr conn')
                      else Inr conn')
           in (case verified of
                 Inl e \<Rightarrow> \<lparr>returned = Inl e, rawOpened = True, rawCloses = snd raced + 1\<rparr>
               | Inr conn' \<Rightarrow>
                   \<lparr>returned = Inr conn', rawOpened = True, rawCloses = snd raced\<rparr>)))))))))"

subsection \<open>A concrete dial\<close>

text \<open>
  An environment in which every outside step succeeds, and a configuration whose
  obfuscated session ticket key is the hex string \<open>00\<close>: one byte, not 32.
\<close>

definition dialEnvOK :: dialEnv where
  "dialEnvOK = \<lparr>dialResult = (\<lambda>network addr. None),
      splitHostPort = (\<lambda>addr. Inr (takeWhile (\<lambda>c. c \<noteq> CHR '':'') addr, ''443'')),
      selectTLSProfile = Some TLS_PROFILE_CHROME_58,
      hexDecodeString = (\<lambda>s. if s = ''00'' then Inr [0] else Inl HexDecodeFailed),
      readFile = (\<lambda>name. Inr []),
      dialNewSeed = Inr (replicate 32 9),
      TLSProfileIsRandomized =
        (\<lambda>p. p = Some TLS_PROFILE_RANDOMIZED \<or> p = Some TLS_PROFILE_TLS13_RANDOMIZED),
      TLSProfileIsTLS13 = (\<lambda>p. p = Some TLS_PROFILE_TLS13_RANDOMIZED),
      newObfuscatedClientSessionState = (\<lambda>key. None),
      handshakeResult = (\<lambda>conn. Inr (conn\<lparr>PeerCertificates := [[1]]\<rparr>)),
      ctxDoneFirst = False,
      ctxErr = ContextDone,
      verifyChain = (\<lambda>certs hostname. None)\<rparr>"

definition shortKeyConfig :: CustomTLSConfig where
  "shortKeyConfig = \<lparr>DialAddr = [], UseDialAddrSNI = True, SNIServerName = [],
      SkipVerify = False, VerifyLegacyCertificate = None,
      TLSProfile = Some TLS_PROFILE_CHROME_58, RandomizedTLSProfileSeed = None,
      TrustedCACertificatesFilename = [], ObfuscatedSessionTicketKey = ''00''\<rparr>"

section \<open>Randomized ClientHello assembly (utls/u_parrots.go)\<close>

datatype hashAlg = hashSHA1 | hashSHA256 | hashSHA384 | disabledHashSHA512
datatype sigAlg = signatureRSA | signatureECDSA
type_synonym SignatureAndHash = "hashAlg \<times> sigAlg"
datatype CurveID = X25519 | CurveP256 | CurveP384 | CurveP521

datatype TLSExtension =
    SNIExtension string
  | SessionTicketExtension "bytes option"
  | SignatureAlgorithmsExtension "SignatureAndHash list"
  | SupportedPointsExtension bytes
  | SupportedCurvesExtension "CurveID list"
  | utlsPaddingExtension
  | StatusRequestExtension
  | SCTExtension
  | RenegotiationInfoExtension
  | ALPNExtension "string list"

record ClientHelloMsg =
  Vers :: nat
  Random :: bytes
  SessionId :: bytes
  CipherSuites :: "16 word list"
  CompressionMethods :: bytes

text \<open>
  The parts of \<open>UConn\<close> the assembly reads and writes. \<open>Session\<close> is the session
  ticket of the session state, \<^const>\<open>None\<close> for a nil session.
\<close>

record UConn =
  clientHelloID :: ClientHelloID
  clientHelloPRNGSeed :: "bytes option"
  ServerName :: string
  NextProtos :: "string list"
  Hello :: ClientHelloMsg
  Session :: "bytes option"
  Extensions :: "TLSExtension list"

text \<open>
  What the assembly takes from outside its file, as parameters: the seeded generator
  of the \<open>prng\<close> package (\<open>'g\<close> is its state), the rounding of \<open>float32\<close>
  arithmetic, the cipher suite table (identifier, and whether the suite has the
  TLS 1.2 flag) and the default suites of the TLS library, SHA-256, and the parrots of
  the fixed browser profiles, which are not modelled here. \<open>fixedParrot\<close> gets the
  outcome of reading the TLS configuration's random source.
\<close>

record 'g utlsLib =
  NewPRNGWithSeed :: "bytes \<Rightarrow> 'g"
  prngIntn :: "'g \<Rightarrow> int \<Rightarrow> int \<times> 'g"
  prngPerm :: "'g \<Rightarrow> nat \<Rightarrow> nat list \<times> 'g"
  f32 :: "rat \<Rightarrow> rat"
  cipherSuites :: "(16 word \<times> bool) list"
  defaultCipherSuites :: "16 word list"
  sha256Sum :: "bytes \<Rightarrow> bytes"
  fixedParrot :: "ClientHelloID \<Rightarrow> UConn \<Rightarrow> error + bytes \<Rightarrow> error + UConn"

text \<open>
  What one assembly draws from sources that are not the ClientHello PRNG seed:
  \<open>flipCoin\<close> is \<open>prng.FlipCoin()\<close> of the process-wide generator, \<open>randRead\<close>
  the outcome of reading 32 bytes from the TLS configuration's \<open>rand()\<close>.
\<close>

record helloEnv =
  flipCoin :: bool
  randRead :: "error + bytes"

definition VersionTLS12 :: nat where "VersionTLS12 = 0x0303"
definition compressionNone :: byte where "compressionNone = 0"
definition pointFormatUncompressed :: byte where "pointFormatUncompressed = 0"

definition fillClientHelloHeader ::
  "'g utlsLib \<Rightarrow> helloEnv \<Rightarrow> ClientHelloMsg \<Rightarrow> error + ClientHelloMsg" where
  "fillClientHelloHeader lib env hello =
     (let hello1 = (if Vers hello = 0 then hello\<lparr>Vers := VersionTLS12\<rparr> else hello) in
      case (if length (Random hello1) = 0
            then (case randRead env of
                    Inl e \<Rightarrow> Inl ShortReadFromRand
                  | Inr bs \<Rightarrow> if length bs \<noteq> 32 then Inl ShortReadFromRand
                              else Inr (hello1\<lparr>Random := bs\<rparr>))
            else if length (Random hello1) = 32 then Inr hello1
            else Inl BadRandomLength) of
        Inl e \<Rightarrow> Inl e
      | Inr hello2 \<Rightarrow>
          (let hello3 = (if length (CipherSuites hello2) = 0
                         then hello2\<lparr>CipherSuites := defaultCipherSuites lib\<rparr> else hello2);
               hello4 = (if length (CompressionMethods hello3) = 0
                         then hello3\<lparr>CompressionMethods := [compressionNone]\<rparr> else hello3)
           in Inr hello4))"

text \<open>
  \<open>tossBiasedCoin\<close>. The probability is a \<open>float32\<close>; its arithmetic is rational
  arithmetic followed by the rounding \<open>f32\<close>.
\<close>

definition tossBiasedCoin :: "'g utlsLib \<Rightarrow> 'g \<Rightarrow> rat \<Rightarrow> bool \<times> 'g" where
  "tossBiasedCoin lib PRNG probability =
     (let threshold = f32 lib (f32 lib 65535 * probability) in
      case prngIntn lib PRNG 65535 of
        (v, PRNG') \<Rightarrow> (f32 lib (of_int v) \<le> threshold, PRNG'))"

function removeLoop ::
  "'g utlsLib \<Rightarrow> rat \<Rightarrow> rat \<Rightarrow> nat \<Rightarrow> nat \<Rightarrow> 16 word list \<Rightarrow> 'g \<Rightarrow> 16 word list \<times> 'g" where
  "removeLoop lib maxRemovalProbability floatLen i sliceLen s PRNG =
     (if i < sliceLen
      then (case tossBiasedCoin lib PRNG
                   (f32 lib (f32 lib (maxRemovalProbability * f32 lib (of_nat i)) / floatLen)) of
              (True, PRNG') \<Rightarrow>
                removeLoop lib maxRemovalProbability floatLen i (sliceLen - 1)
                  (take i s @ drop (i + 1) s) PRNG'
            | (False, PRNG') \<Rightarrow>
                removeLoop lib maxRemovalProbability floatLen (i + 1) sliceLen s PRNG')
      else (s, PRNG))"
  by pat_completeness auto
termination
  by (relation "measure (\<lambda>(lib, p, fl, i, sliceLen, s, g). sliceLen - i)") auto

declare removeLoop.simps [simp del]

definition removeRandomCiphers ::
  "'g utlsLib \<Rightarrow> 'g \<Rightarrow> 16 word list \<Rightarrow> rat \<Rightarrow> 16 word list \<times> 'g" where
  "removeRandomCiphers lib PRNG s maxRemovalProbability =
     (if length s \<le> 1 then (s, PRNG)
      else removeLoop lib maxRemovalProbability (f32 lib (of_nat (length s))) 1 (length s) s PRNG)"

record sortableCipher =
  isObsolete :: bool
  randomTag :: nat
  suite :: "16 word"

definition Less :: "sortableCipher \<Rightarrow> sortableCipher \<Rightarrow> bool" where
  "Less a b =
     (if isObsolete a \<and> \<not> isObsolete b then False
      else if isObsolete b \<and> \<not> isObsolete a then True
      else randomTag a < randomTag b)"

text \<open>
  \<open>sort.Sort\<close> by \<open>Less\<close>, as an insertion sort. The tags are the entries of a
  permutation, so no two ciphers compare equal and the sorted order is the only one.
\<close>

fun insertCipher :: "sortableCipher \<Rightarrow> sortableCipher list \<Rightarrow> sortableCipher list" where
  "insertCipher c [] = [c]"
| "insertCipher c (d # ds) = (if Less c d then c # d # ds else d # insertCipher c ds)"

definition sortCiphers :: "sortableCipher list \<Rightarrow> sortableCipher list" where
  "sortCiphers cs = foldr insertCipher cs []"

text \<open>
  \<open>shuffledCiphers\<close>. Indexing the permutation beyond its end panics.
\<close>

definition shuffledCiphers :: "'g utlsLib \<Rightarrow> 'g \<Rightarrow> (error + 16 word list) \<times> 'g" where
  "shuffledCiphers lib PRNG =
     (case prngPerm lib PRNG (length (cipherSuites lib)) of
        (perm, PRNG') \<Rightarrow>
          if length perm < length (cipherSuites lib) then (Inl IndexOutOfRange, PRNG')
          else (Inr (map suite (sortCiphers
                  (map (\<lambda>((sid, tls12), tag).
                          \<lparr>isObsolete = (\<not> tls12), randomTag = tag, suite = sid\<rparr>)
                       (zip (cipherSuites lib) perm)))), PRNG'))"

text \<open>
  The in-place shuffle \<open>for i := range s { s[i], s[perm[i]] = s[perm[i]], s[i] }\<close>,
  shared by \<open>shuffleTLSExtensions\<close> and \<open>shuffleSignatures\<close>.
\<close>

fun shuffleLoop :: "nat list \<Rightarrow> nat \<Rightarrow> nat \<Rightarrow> 'a list \<Rightarrow> error + 'a list" where
  "shuffleLoop perm i 0 s = Inr s"
| "shuffleLoop perm i (Suc n) s =
     (if i \<ge> length perm \<or> perm ! i \<ge> length s then Inl IndexOutOfRange
      else shuffleLoop perm (i + 1) n (swap i (perm ! i) s))"

definition shuffleWithPerm :: "'g utlsLib \<Rightarrow> 'g \<Rightarrow> 'a list \<Rightarrow> (error + 'a list) \<times> 'g" where
  "shuffleWithPerm lib PRNG s =
     (case prngPerm lib PRNG (length s) of
        (perm, PRNG') \<Rightarrow> (shuffleLoop perm 0 (length s) s, PRNG'))"

definition appendIf :: "bool \<Rightarrow> 'a \<Rightarrow> 'a list \<Rightarrow> 'a list" where
  "appendIf b x xs = (if b then xs @ [x] else xs)"

text \<open>
  \<open>parrotRandomizedNoALPN\<close>, in two parts: \<open>randomizedExtensions\<close> is everything
  it does with the generator after the cipher suites (the signature algorithms, the
  curves, the optional extensions and the final shuffle), which reads nothing of the
  hello message.
\<close>

definition randomizedExtensions ::
  "'g utlsLib \<Rightarrow> UConn \<Rightarrow> 'g \<Rightarrow> error + TLSExtension list" where
  "randomizedExtensions lib uconn PRNG2 =
     (let base = [(hashSHA256, signatureECDSA), (hashSHA256, signatureRSA),
                  (hashSHA384, signatureECDSA), (hashSHA384, signatureRSA),
                  (hashSHA1, signatureRSA)]
      in
     (case tossBiasedCoin lib PRNG2 (f32 lib (1 / 2)) of (c1, PRNG3) \<Rightarrow>
     (case tossBiasedCoin lib PRNG3 (f32 lib (1 / 2)) of (c2, PRNG4) \<Rightarrow>
     (case tossBiasedCoin lib PRNG4 (f32 lib (1 / 2)) of (c3, PRNG5) \<Rightarrow>
     (let algos = appendIf c3 (hashSHA1, signatureECDSA)
                    (appendIf c2 (disabledHashSHA512, signatureRSA)
                      (appendIf c1 (disabledHashSHA512, signatureECDSA) base))
      in
     (case shuffleWithPerm lib PRNG5 algos of
        (Inl e, _) \<Rightarrow> Inl e
      | (Inr sigAndHashAlgos, PRNG6) \<Rightarrow>
     (case tossBiasedCoin lib PRNG6 (f32 lib (7 / 10)) of (c4, PRNG7) \<Rightarrow>
     (case tossBiasedCoin lib PRNG7 (f32 lib (3 / 10)) of (c5, PRNG8) \<Rightarrow>
     (let curveIDs = appendIf c5 CurveP521 (appendIf c4 X25519 [] @ [CurveP256, CurveP384]);
          exts0 = [SNIExtension (ServerName uconn), SessionTicketExtension (Session uconn),
                   SignatureAlgorithmsExtension sigAndHashAlgos,
                   SupportedPointsExtension [pointFormatUncompressed],
                   SupportedCurvesExtension curveIDs]
      in
     (case tossBiasedCoin lib PRNG8 (f32 lib (33 / 50)) of (c6, PRNG9) \<Rightarrow>
     (case tossBiasedCoin lib PRNG9 (f32 lib (33 / 50)) of (c7, PRNG10) \<Rightarrow>
     (case tossBiasedCoin lib PRNG10 (f32 lib (11 / 20)) of (c8, PRNG11) \<Rightarrow>
     (case tossBiasedCoin lib PRNG11 (f32 lib (11 / 25)) of (c9, PRNG12) \<Rightarrow>
     (let exts1 = appendIf c9 RenegotiationInfoExtension
                    (appendIf c8 SCTExtension
                      (appendIf c7 StatusRequestExtension
                        (appendIf c6 utlsPaddingExtension exts0)))
      in fst (shuffleWithPerm lib PRNG12 exts1)))))))))))))))"

definition parrotRandomizedNoALPN ::
  "'g utlsLib \<Rightarrow> helloEnv \<Rightarrow> UConn \<Rightarrow> error + UConn" where
  "parrotRandomizedNoALPN lib env uconn =
     (case clientHelloPRNGSeed uconn of
        None \<Rightarrow> Inl MissingClientHelloPRNGSeed
      | Some seed \<Rightarrow>
     (let PRNG0 = NewPRNGWithSeed lib seed in
      case shuffledCiphers lib PRNG0 of
        (Inl e, _) \<Rightarrow> Inl e
      | (Inr shuffledSuites, PRNG1) \<Rightarrow>
     (case removeRandomCiphers lib PRNG1 shuffledSuites (f32 lib (2 / 5)) of
        (suites, PRNG2) \<Rightarrow>
     (case fillClientHelloHeader lib env ((Hello uconn)\<lparr>CipherSuites := suites\<rparr>) of
        Inl e \<Rightarrow> Inl e
      | Inr hello \<Rightarrow>
     (let hello' = (case Session uconn of
                      Some ticket \<Rightarrow>
                        if length ticket > 0 then hello\<lparr>SessionId := sha256Sum lib ticket\<rparr>
                        else hello
                    | None \<Rightarrow> hello)
      in
     (case randomizedExtensions lib uconn PRNG2 of
        Inl e \<Rightarrow> Inl e
      | Inr exts \<Rightarrow> Inr (uconn\<lparr>Hello := hello', Extensions := exts\<rparr>)))))))"

definition parrotRandomizedALPN ::
  "'g utlsLib \<Rightarrow> helloEnv \<Rightarrow> UConn \<Rightarrow> error + UConn" where
  "parrotRandomizedALPN lib env uconn =
     (case parrotRandomizedNoALPN lib env uconn of
        Inl e \<Rightarrow> Inl e
      | Inr uconn1 \<Rightarrow>
          (let uconn2 = (if length (NextProtos uconn1) = 0
                         then uconn1\<lparr>NextProtos := [''h2'', ''http/1.1'']\<rparr> else uconn1)
           in Inr (uconn2\<lparr>Extensions :=
                     Extensions uconn2 @ [ALPNExtension (NextProtos uconn2)]\<rparr>)))"

text \<open>
  \<open>generateClientHelloConfig\<close> on an identifier that is not an alias, and on any
  identifier: an alias calls it again with the identifier it stands for.
\<close>

definition generateDirect ::
  "'g utlsLib \<Rightarrow> helloEnv \<Rightarrow> ClientHelloID \<Rightarrow> UConn \<Rightarrow> error + UConn" where
  "generateDirect lib env ident uconn =
     (let uconn1 = uconn\<lparr>clientHelloID := ident\<rparr> in
      if ident = HelloRandomizedALPN then parrotRandomizedALPN lib env uconn1
      else if ident = HelloRandomizedNoALPN then parrotRandomizedNoALPN lib env uconn1
      else if ident = HelloCustom then
        (case fillClientHelloHeader lib env (Hello uconn1) of
           Inl e \<Rightarrow> Inl e
         | Inr hello \<Rightarrow> Inr (uconn1\<lparr>Hello := hello\<rparr>))
      else if ident = HelloGolang then Inl UnknownParrotID
      else fixedParrot lib ident uconn1 (randRead env))"

definition generateClientHelloConfig ::
  "'g utlsLib \<Rightarrow> helloEnv \<Rightarrow> ClientHelloID \<Rightarrow> UConn \<Rightarrow> error + UConn" where
  "generateClientHelloConfig lib env ident uconn =
     (let uconn1 = uconn\<lparr>clientHelloID := ident\<rparr> in
      if ident = HelloRandomized
      then (if flipCoin env then generateDirect lib env HelloRandomizedALPN uconn1
            else generateDirect lib env HelloRandomizedNoALPN uconn1)
      else if ident = HelloAndroid_Auto
      then generateDirect lib env HelloAndroid_6_0_Browser uconn1
      else if ident = HelloFirefox_Auto then generateDirect lib env HelloFirefox_56 uconn1
      else if ident = HelloChrome_Auto then generateDirect lib env HelloChrome_62 uconn1
      else generateDirect lib env ident uconn)"

text \<open>A ClientHello with its client random blanked: everything else it holds.\<close>

definition withoutRandom :: "UConn \<Rightarrow> UConn" where
  "withoutRandom uconn = uconn\<lparr>Hello := (Hello uconn)\<lparr>Random := []\<rparr>\<rparr>"

subsection \<open>A concrete assembly\<close>

text \<open>
  A stand-in library for running the model: a generator that always answers 0 and the
  identity permutation, exact arithmetic, three cipher suites, a constant digest.
\<close>

definition plainUtls :: "unit utlsLib" where
  "plainUtls = \<lparr>NewPRNGWithSeed = (\<lambda>seed. ()), prngIntn = (\<lambda>g n. (0, g)),
      prngPerm = (\<lambda>g n. ([0..<n], g)), f32 = (\<lambda>x. x),
      cipherSuites = [(0xc02b, True), (0xc02f, True), (0x000a, False)],
      defaultCipherSuites = [0xc02b, 0xc02f],
      sha256Sum = (\<lambda>bs. replicate 32 0),
      fixedParrot = (\<lambda>ident uconn r. Inl UnknownParrotID)\<rparr>"

definition freshUConn :: UConn where
  "freshUConn = \<lparr>clientHelloID = HelloGolang, clientHelloPRNGSeed = Some (replicate 32 5),
      ServerName = ''example.org'', NextProtos = [],
      Hello = \<lparr>Vers = 0, Random = [], SessionId = [], CipherSuites = [],
                CompressionMethods = []\<rparr>,
      Session = None, Extensions = []\<rparr>"

definition envOnes :: helloEnv where
  "envOnes = \<lparr>flipCoin = True, randRead = Inr (replicate 32 1)\<rparr>"

definition envTwos :: helloEnv where
  "envTwos = \<lparr>flipCoin = False, randRead = Inr (replicate 32 2)\<rparr>"

section \<open>Facts about buckets\<close>

lemma bucket_get_put:
  "bucket_get (bucket_put k v b) k' = (if k' = k then Some v else bucket_get b k')"
  by (induction b) (auto simp: bucket_get_def)

lemma bucket_get_put_same [simp]: "bucket_get (bucket_put k v b) k = Some v"
  by (simp add: bucket_get_put)

lemma bucket_get_put_other [simp]:
  "k' \<noteq> k \<Longrightarrow> bucket_get (bucket_put k v b) k' = bucket_get b k'"
  by (simp add: bucket_get_put)

lemma filter_key_neq_affinity_key [simp]:
  "datastoreLastServerEntryFilterKey \<noteq> datastoreAffinityServerEntryIDKey"
  "datastoreAffinityServerEntryIDKey \<noteq> datastoreLastServerEntryFilterKey"
  by (simp_all add: datastoreLastServerEntryFilterKey_def datastoreAffinityServerEntryIDKey_def)

section \<open>Facts about the replay partition\<close>

lemma advance_has:
  "i \<le> p \<Longrightarrow> p < advance has ids i j \<Longrightarrow> has (ids ! nat p)"
proof (induction has ids i j rule: advance.induct)
  case (1 has ids i j)
  show ?case
  proof (cases "i < j \<and> has (ids ! nat i)")
    case True
    then have eq: "advance has ids i j = advance has ids (i + 1) j"
      by (simp add: advance.simps [of has ids i j])
    show ?thesis
    proof (cases "p = i")
      case True
      with \<open>i < j \<and> has (ids ! nat i)\<close> show ?thesis by simp
    next
      case False
      with 1 True eq show ?thesis by simp
    qed
  next
    case False
    then have "advance has ids i j = i" by (auto simp add: advance.simps [of has ids i j])
    with 1 show ?thesis by simp
  qed
qed

lemma advance_stop:
  "advance has ids i j < j \<Longrightarrow> \<not> has (ids ! nat (advance has ids i j))"
proof (induction has ids i j rule: advance.induct)
  case (1 has ids i j)
  show ?case
  proof (cases "i < j \<and> has (ids ! nat i)")
    case True
    then have eq: "advance has ids i j = advance has ids (i + 1) j"
      by (simp add: advance.simps [of has ids i j])
    with 1 True show ?thesis by simp
  next
    case False
    then have "advance has ids i j = i" by (auto simp add: advance.simps [of has ids i j])
    with 1 False show ?thesis by auto
  qed
qed

lemma retreat_lacks:
  "retreat has ids i j < q \<Longrightarrow> q \<le> j \<Longrightarrow> \<not> has (ids ! nat q)"
proof (induction has ids i j rule: retreat.induct)
  case (1 has ids i j)
  show ?case
  proof (cases "i < j \<and> \<not> has (ids ! nat j)")
    case True
    then have eq: "retreat has ids i j = retreat has ids i (j - 1)"
      by (simp add: retreat.simps [of has ids i j])
    show ?thesis
    proof (cases "q = j")
      case True
      with \<open>i < j \<and> \<not> has (ids ! nat j)\<close> show ?thesis by simp
    next
      case False
      with 1 True eq show ?thesis by simp
    qed
  next
    case False
    then have "retreat has ids i j = j" by (auto simp add: retreat.simps [of has ids i j])
    with 1 show ?thesis by simp
  qed
qed

lemma retreat_stop:
  "i < retreat has ids i j \<Longrightarrow> has (ids ! nat (retreat has ids i j))"
proof (induction has ids i j rule: retreat.induct)
  case (1 has ids i j)
  show ?case
  proof (cases "i < j \<and> \<not> has (ids ! nat j)")
    case True
    then have eq: "retreat has ids i j = retreat has ids i (j - 1)"
      by (simp add: retreat.simps [of has ids i j])
    with 1 True show ?thesis by simp
  next
    case False
    then have "retreat has ids i j = j" by (auto simp add: retreat.simps [of has ids i j])
    with 1 False show ?thesis by auto
  qed
qed

lemma mset_swapped: "i < length xs \<Longrightarrow> j < length xs \<Longrightarrow> mset (swap i j xs) = mset xs"
  by (simp add: swap_def mset_swap)

lemma length_swap [simp]: "length (swap i j xs) = length xs"
  by (simp add: swap_def)

lemma nth_swap:
  "i < length xs \<Longrightarrow> j < length xs \<Longrightarrow> k < length xs \<Longrightarrow>
   swap i j xs ! k = (if k = j then xs ! i else if k = i then xs ! j else xs ! k)"
  by (simp add: swap_def nth_list_update)

lemma partitionLoop_length [simp]:
  "length (partitionLoop has i j ids) = length ids"
proof (induction has i j ids rule: partitionLoop.induct)
  case (1 has i j ids)
  then show ?case
    by (simp add: partitionLoop.simps [of has i j ids] Let_def)
qed

lemma partitionLoop_mset:
  "0 \<le> i \<Longrightarrow> j < int (length ids) \<Longrightarrow> mset (partitionLoop has i j ids) = mset ids"
proof (induction has i j ids rule: partitionLoop.induct)
  case (1 has i j ids)
  define i' where "i' = advance has ids i j"
  define j' where "j' = retreat has ids i' j"
  have bi: "i \<le> i'" using advance_bounds [of i has ids j] by (simp add: i'_def)
  have bj: "j' \<le> j" using retreat_bounds [of has ids i' j] by (simp add: j'_def)
  show ?case
  proof (cases "i' < j'")
    case True
    have in_range: "nat i' < length ids" "nat j' < length ids"
      using True bi bj 1(2,3) by auto
    have "mset (partitionLoop has (i' + 1) (j' - 1) (swap (nat i') (nat j') ids))
            = mset (swap (nat i') (nat j') ids)"
      using 1(1) [OF i'_def j'_def True] bi bj 1(2,3) by simp
    then show ?thesis
      using True in_range
      by (simp add: partitionLoop.simps [of has i j ids] Let_def i'_def [symmetric]
            j'_def [symmetric] mset_swapped)
  next
    case False
    then show ?thesis
      by (simp add: partitionLoop.simps [of has i j ids] Let_def i'_def [symmetric]
            j'_def [symmetric])
  qed
qed

lemma partitionLoop_prefix:
  "0 \<le> i \<Longrightarrow> j < int (length ids) \<Longrightarrow> k < nat i \<Longrightarrow>
     partitionLoop has i j ids ! k = ids ! k"
proof (induction has i j ids rule: partitionLoop.induct)
  case (1 has i j ids)
  define i' where "i' = advance has ids i j"
  define j' where "j' = retreat has ids i' j"
  have bi: "i \<le> i'" using advance_bounds [of i has ids j] by (simp add: i'_def)
  have bj: "j' \<le> j" using retreat_bounds [of has ids i' j] by (simp add: j'_def)
  show ?case
  proof (cases "i' < j'")
    case True
    have in_range: "nat i' < length ids" "nat j' < length ids" "k < length ids"
      "k \<noteq> nat i'" "k \<noteq> nat j'"
      using True bi bj 1(2,3,4) by auto
    have "partitionLoop has (i' + 1) (j' - 1) (swap (nat i') (nat j') ids) ! k
            = swap (nat i') (nat j') ids ! k"
      using 1(1) [OF i'_def j'_def True] bi bj 1(2,3,4) by simp
    then show ?thesis
      using True in_range
      by (simp add: partitionLoop.simps [of has i j ids] Let_def i'_def [symmetric]
            j'_def [symmetric] nth_swap)
  next
    case False
    then show ?thesis
      by (simp add: partitionLoop.simps [of has i j ids] Let_def i'_def [symmetric]
            j'_def [symmetric])
  qed
qed

lemma partitionLoop_partitioned:
  "0 \<le> h \<Longrightarrow> h \<le> i \<Longrightarrow> j < int (length ids) \<Longrightarrow> partInv has h i j ids \<Longrightarrow>
     partitioned has (nat h) (partitionLoop has i j ids)"
proof (induction has i j ids rule: partitionLoop.induct)
  case (1 has i j ids)
  define i' where "i' = advance has ids i j"
  define j' where "j' = retreat has ids i' j"
  have bi: "i \<le> i'" using advance_bounds [of i has ids j] by (simp add: i'_def)
  have bj: "j' \<le> j" using retreat_bounds [of has ids i' j] by (simp add: j'_def)
  have head_has: "has (ids ! nat p)" if "h \<le> p" "p < i'" for p
  proof (cases "p < i")
    case True
    with 1(5) that show ?thesis by (simp add: partInv_def)
  next
    case False
    with that advance_has [of i p has ids j] show ?thesis by (simp add: i'_def)
  qed
  have tail_lacks: "\<not> has (ids ! nat q)" if "j' < q" "q < int (length ids)" for q
  proof (cases "j < q")
    case True
    with 1(5) that show ?thesis by (simp add: partInv_def)
  next
    case False
    with that retreat_lacks [of has ids i' j q] show ?thesis by (simp add: j'_def)
  qed
  show ?case
  proof (cases "i' < j'")
    case True
    let ?ids = "swap (nat i') (nat j') ids"
    have in_range: "nat i' < length ids" "nat j' < length ids"
      using True bi bj 1(2,3,4) by auto
    have at_j: "has (ids ! nat j')"
      using retreat_stop [of i' has ids j] True by (simp add: j'_def)
    have at_i: "\<not> has (ids ! nat i')"
      using advance_stop [of has ids i j] True bj by (simp add: i'_def)
    have inv: "partInv has h (i' + 1) (j' - 1) ?ids"
      unfolding partInv_def
    proof (intro conjI allI impI)
      fix p assume p: "h \<le> p \<and> p < i' + 1"
      show "has (?ids ! nat p)"
      proof (cases "p = i'")
        case True
        with in_range at_j show ?thesis by (simp add: nth_swap)
      next
        case False
        with p have "p < i'" by simp
        moreover from this p True 1(2) have "nat p \<noteq> nat i'" "nat p \<noteq> nat j'" "nat p < length ids"
          using in_range by auto
        ultimately show ?thesis using head_has [of p] p in_range by (simp add: nth_swap)
      qed
    next
      fix q assume q: "j' - 1 < q \<and> q < int (length ?ids)"
      show "\<not> has (?ids ! nat q)"
      proof (cases "q = j'")
        case True
        with in_range at_i show ?thesis by (simp add: nth_swap)
      next
        case False
        with q have q': "j' < q" "q < int (length ids)" by simp_all
        moreover from this True 1(2,3) bi have "nat q \<noteq> nat i'" "nat q \<noteq> nat j'" "nat q < length ids"
          by auto
        ultimately show ?thesis using tail_lacks [of q] in_range by (simp add: nth_swap)
      qed
    qed
    have "partitioned has (nat h) (partitionLoop has (i' + 1) (j' - 1) ?ids)"
      using 1(1) [OF i'_def j'_def True] 1(2,3,4) bi bj inv by simp
    then show ?thesis
      using True
      by (simp add: partitionLoop.simps [of has i j ids] Let_def i'_def [symmetric]
            j'_def [symmetric])
  next
    case False
    have "partitioned has (nat h) ids"
      unfolding partitioned_def
    proof (intro allI impI)
      fix p q assume a: "nat h \<le> p \<and> p < q \<and> q < length ids \<and> has (ids ! q)"
      then have "\<not> j' < int q" using tail_lacks [of "int q"] by auto
      with False a have "int p < i'" by simp
      moreover from a 1(2) have "h \<le> int p" by linarith
      ultimately show "has (ids ! p)" using head_has [of "int p"] by simp
    qed
    with False show ?thesis
      by (simp add: partitionLoop.simps [of has i j ids] Let_def i'_def [symmetric]
            j'_def [symmetric])
  qed
qed

lemma collectKeys_filter:
  "collectKeys a keys acc = acc @ filter (\<lambda>k. a \<noteq> Some k) keys"
  by (induction keys arbitrary: acc) auto

lemma shuffleFrom_length [simp]: "length (shuffleFrom h n rnd ids) = length ids"
  by (induction n arbitrary: rnd ids) (auto split: prod.splits)

lemma shuffleFrom_prefix: "k < h \<Longrightarrow> shuffleFrom h n rnd ids ! k = ids ! k"
  by (induction n arbitrary: rnd ids) (auto split: prod.splits simp: swap_def)

lemma resetShuffled_length:
  "length (resetShuffled r iterator rnd db) =
     resetShuffleHead r iterator db +
     length (filter (\<lambda>k. resetAffinity r iterator db \<noteq> Some k) (cursor_keys (serverEntries db)))"
  by (simp add: resetShuffled_def resetShuffleHead_def collectKeys_filter Let_def
        split: option.splits)

lemma resetShuffled_affinity_slot:
  "resetAffinity r iterator db = Some a \<Longrightarrow> resetShuffled r iterator rnd db ! 0 = a"
  by (simp add: resetShuffled_def resetShuffleHead_def collectKeys_filter Let_def
        shuffleFrom_prefix del: shuffleFrom.simps)

lemma partInv_initial: "partInv has h h (int (length xs) - 1) xs"
  by (auto simp: partInv_def)

lemma reset_Close_same:
  "resetShuffleHead r (Close iterator) db = resetShuffleHead r iterator db"
  "resetShuffled r (Close iterator) rnd db = resetShuffled r iterator rnd db"
  "config (Close iterator) = config iterator"
  by (simp_all add: Close_def resetShuffleHead_def resetShuffled_def resetAffinity_def)

section \<open>Facts about reachable stores and the affinity slot\<close>

lemma storeInv_empty: "storeInv emptyStore"
  by (simp add: storeInv_def emptyStore_def bucket_get_def)

lemma storeInv_store:
  assumes "storeInv db" and "StoreServerEntry validate E r (Some db) = (None, Some db')"
  shows "storeInv db'"
proof -
  from assms(2) have "db' = db \<or>
      db' = db\<lparr>serverEntries := bucket_put (IpAddress E) (Encoded E) (serverEntries db)\<rparr>"
    by (auto simp: StoreServerEntry_def datastoreUpdate_def Let_def split: if_splits)
  then show ?thesis
  proof
    assume "db' = db" with assms(1) show ?thesis by simp
  next
    assume "db' = db\<lparr>serverEntries := bucket_put (IpAddress E) (Encoded E) (serverEntries db)\<rparr>"
    with assms(1) show ?thesis
      by (auto simp: storeInv_def bucket_get_put)
  qed
qed

lemma storeInv_promote:
  assumes "storeInv db" and "PromoteServerEntry cfg ip (Some db) = (None, Some db')"
  shows "storeInv db'"
proof (cases "bucket_get (serverEntries db) ip")
  case None
  with assms show ?thesis
    by (simp add: PromoteServerEntry_def datastoreUpdate_def)
next
  case (Some d)
  with assms(2) have "db' = db\<lparr>keyValues :=
      bucket_put datastoreLastServerEntryFilterKey (makeServerEntryFilterValue cfg)
        (bucket_put datastoreAffinityServerEntryIDKey ip (keyValues db))\<rparr>"
    by (auto simp: PromoteServerEntry_def datastoreUpdate_def Let_def)
  with assms(1) Some show ?thesis
    by (auto simp: storeInv_def bucket_get_put)
qed

lemma reachable_storeInv: "reachable db \<Longrightarrow> storeInv db"
proof (induction rule: reachable.induct)
  case reach_empty
  show ?case by (rule storeInv_empty)
next
  case (reach_store db validate E r db')
  then show ?case by (blast intro: storeInv_store)
next
  case (reach_promote db cfg ip db')
  then show ?case by (blast intro: storeInv_promote)
next
  case (reach_dial db dp)
  then show ?case by (simp add: storeInv_def)
next
  case (reach_keyValue db k v)
  then show ?case by (simp add: storeInv_def bucket_get_put)
qed

lemma resetIDs_affinity_head:
  assumes "resetAffinity r iterator db = Some a"
  shows "resetIDs r iterator rnd db \<noteq> [] \<and> resetIDs r iterator rnd db ! 0 = a"
proof -
  from assms have h: "resetShuffleHead r iterator db = 1"
    by (simp add: resetShuffleHead_def)
  let ?ids2 = "resetShuffled r iterator rnd db"
  have len: "0 < length ?ids2"
    using resetShuffled_length [of r iterator rnd db] h by simp
  have slot: "?ids2 ! 0 = a"
    using assms by (rule resetShuffled_affinity_slot)
  show ?thesis
  proof (cases "r \<and> ReplayCandidateCount (config iterator) > 0")
    case True
    let ?out = "partitionLoop (hasDialParameters db (NetworkID (config iterator)))
                 (int (resetShuffleHead r iterator db)) (int (length ?ids2) - 1) ?ids2"
    have eq: "resetIDs r iterator rnd db = ?out"
      using True by (simp add: resetIDs_def Let_def)
    have "length ?out = length ?ids2" by simp
    moreover have "?out ! 0 = ?ids2 ! 0"
      by (rule partitionLoop_prefix) (simp_all add: h)
    ultimately show ?thesis using eq len slot by (metis length_greater_0_conv)
  next
    case False
    then have "resetIDs r iterator rnd db = ?ids2"
      by (auto simp add: resetIDs_def Let_def)
    with len slot show ?thesis by auto
  qed
qed

section \<open>Facts about the obfuscator\<close>

lemma XORKeyStream_length:
  "XORKeyStream nxt c bs = (out, c') \<Longrightarrow> length out = length bs"
  by (induction bs arbitrary: c out c') (auto split: prod.splits)

lemma rehash_fixed: "h d = d \<Longrightarrow> rehash h n d = d"
  by (induction n) auto

lemma plainLib_ciphers: "initObfuscatorCiphers plainLib seed cfg = Inr ((), ())"
  by (simp add: initObfuscatorCiphers_def deriveKey_def plainLib_def rehash_fixed
        OBFUSCATE_KEY_LENGTH_def Let_def)

lemma XORKeyStream_plain: "XORKeyStream (rc4Next plainLib) c bs = (bs, c)"
  by (induction bs) (auto simp: plainLib_def)

lemma readFull_append:
  "length a = n \<Longrightarrow> readFull n (a @ b) = (Inr a, b)"
  by (simp add: readFull_def)

lemma readSeedMessage_accepts:
  assumes "length seed = OBFUSCATE_SEED_LENGTH" and "length fixed = 8"
    and "initObfuscatorCiphers lib seed cfg = Inr (c2s, s2c)"
    and "XORKeyStream (rc4Next lib) c2s fixed = (plainFields, c2s1)"
    and "readInt32 (take 4 plainFields) = OBFUSCATE_MAGIC_VALUE"
    and "readInt32 (drop 4 plainFields) = int (length padding)"
    and "int (length padding) \<le> OBFUSCATE_MAX_PADDING"
    and "XORKeyStream (rc4Next lib) c2s1 padding = (plainPadding, c2s2)"
  shows "readSeedMessage lib env cfg (seed @ fixed @ padding @ rest) =
     (if length padding \<ge> SEED_LENGTH lib
      then Inr (c2s2, s2c, take (SEED_LENGTH lib) plainPadding)
      else (case newSeed env of
              Inl e \<Rightarrow> Inl e
            | Inr fresh \<Rightarrow> Inr (c2s2, s2c, fresh)), rest)"
  using assms
  by (simp add: readSeedMessage_def readFull_append Let_def split: sum.splits)

lemma magic_roundtrip:
  "readInt32 (putUint32 (nat OBFUSCATE_MAGIC_VALUE)) = OBFUSCATE_MAGIC_VALUE"
  by (simp add: readInt32_def putUint32_def beUint_def OBFUSCATE_MAGIC_VALUE_def)

lemma five_roundtrip: "readInt32 (putUint32 5) = 5"
  by (simp add: readInt32_def putUint32_def beUint_def)

lemma zero_roundtrip: "readInt32 (putUint32 0) = 0"
  by (simp add: readInt32_def putUint32_def beUint_def)

lemma putUint32_length [simp]: "length (putUint32 n) = 4"
  by (simp add: putUint32_def)








lemma initObfuscatorCiphers_keyword_only:
  "Keyword cfg' = Keyword cfg \<Longrightarrow>
     initObfuscatorCiphers lib s cfg' = initObfuscatorCiphers lib s cfg"
  by (simp add: initObfuscatorCiphers_def split: sum.splits)





lemma plainLib_fields [simp]:
  "SEED_LENGTH plainLib = 32"
  "Padding plainLib = (\<lambda>seed minLen maxLen. replicate (nat minLen) 0)"
  by (simp_all add: plainLib_def)



section \<open>Facts about key derivation\<close>

text \<open>
  The key of a direction is the first 16 bytes of the digest of seed, keyword and
  direction tag after 6000 further rounds of the hash; the ciphers are made from the
  seed and the keyword alone; the two directions hash different inputs.
\<close>

lemma rehash_funpow: "rehash h n digest = (h ^^ n) digest"
  by (induction n arbitrary: digest) (simp_all add: funpow_swap1)

lemma deriveKey_truncated_iterated_hash:
  "deriveKey lib seed keyword iv =
     (let digest = (sha1Sum lib ^^ 6000) (sha1Sum lib (seed @ keyword @ iv))
      in if length digest < 16 then Inl InsufficientKeyBytes else Inr (take 16 digest))"
  by (simp add: deriveKey_def rehash_funpow OBFUSCATE_HASH_ITERATIONS_def
        OBFUSCATE_KEY_LENGTH_def Let_def)

lemma initObfuscatorCiphers_ignores_padding:
  "initObfuscatorCiphers lib seed (cfg\<lparr>MinPadding := a, MaxPadding := b\<rparr>) =
   initObfuscatorCiphers lib seed cfg"
  by (rule initObfuscatorCiphers_keyword_only) simp

lemma direction_inputs_differ:
  "seed @ keyword @ stringBytes OBFUSCATE_CLIENT_TO_SERVER_IV \<noteq>
   seed @ keyword @ stringBytes OBFUSCATE_SERVER_TO_CLIENT_IV"
  by (simp add: stringBytes_def OBFUSCATE_CLIENT_TO_SERVER_IV_def
        OBFUSCATE_SERVER_TO_CLIENT_IV_def)

section \<open>Facts about the randomized assembly\<close>

lemma fillClientHelloHeader_random_only:
  assumes "fillClientHelloHeader lib env1 hello = Inr h1"
    and "fillClientHelloHeader lib env2 hello = Inr h2"
  shows "h1\<lparr>Random := []\<rparr> = h2\<lparr>Random := []\<rparr>"
  using assms
  by (auto simp: fillClientHelloHeader_def Let_def split: if_splits sum.splits)

lemma parrotRandomizedNoALPN_random_only:
  assumes "parrotRandomizedNoALPN lib env1 uconn = Inr u1"
    and "parrotRandomizedNoALPN lib env2 uconn = Inr u2"
  shows "withoutRandom u1 = withoutRandom u2"
proof (cases "clientHelloPRNGSeed uconn")
  case None
  with assms show ?thesis by (simp add: parrotRandomizedNoALPN_def)
next
  case (Some seed)
  note seed = this
  obtain sh g1 where sh: "shuffledCiphers lib (NewPRNGWithSeed lib seed) = (sh, g1)"
    by (cases "shuffledCiphers lib (NewPRNGWithSeed lib seed)")
  show ?thesis
  proof (cases sh)
    case (Inl e)
    with assms seed sh show ?thesis by (simp add: parrotRandomizedNoALPN_def)
  next
    case (Inr shuffledSuites)
    note shuffled = this
    obtain suites g2 where
      rm: "removeRandomCiphers lib g1 shuffledSuites (f32 lib (2 / 5)) = (suites, g2)"
      by (cases "removeRandomCiphers lib g1 shuffledSuites (f32 lib (2 / 5))")
    let ?h = "(Hello uconn)\<lparr>CipherSuites := suites\<rparr>"
    from assms(1) seed sh shuffled rm obtain h1 where
      f1: "fillClientHelloHeader lib env1 ?h = Inr h1"
      by (cases "fillClientHelloHeader lib env1 ?h")
         (simp_all add: parrotRandomizedNoALPN_def)
    from assms(2) seed sh shuffled rm obtain h2 where
      f2: "fillClientHelloHeader lib env2 ?h = Inr h2"
      by (cases "fillClientHelloHeader lib env2 ?h")
         (simp_all add: parrotRandomizedNoALPN_def)
    from assms(1) seed sh shuffled rm f1 obtain exts where
      ex: "randomizedExtensions lib uconn g2 = Inr exts"
      by (cases "randomizedExtensions lib uconn g2")
         (simp_all add: parrotRandomizedNoALPN_def Let_def)
    have same: "h1\<lparr>Random := []\<rparr> = h2\<lparr>Random := []\<rparr>"
      using f1 f2 by (rule fillClientHelloHeader_random_only)
    then have same': "h1\<lparr>SessionId := x, Random := []\<rparr> = h2\<lparr>SessionId := x, Random := []\<rparr>" for x
      by (cases h1, cases h2) simp
    from assms(1) seed sh shuffled rm f1 ex have r1:
      "u1 = uconn\<lparr>Hello := (case Session uconn of
                      Some ticket \<Rightarrow>
                        if length ticket > 0 then h1\<lparr>SessionId := sha256Sum lib ticket\<rparr>
                        else h1
                    | None \<Rightarrow> h1), Extensions := exts\<rparr>"
      by (simp add: parrotRandomizedNoALPN_def Let_def)
    from assms(2) seed sh shuffled rm f2 ex have r2:
      "u2 = uconn\<lparr>Hello := (case Session uconn of
                      Some ticket \<Rightarrow>
                        if length ticket > 0 then h2\<lparr>SessionId := sha256Sum lib ticket\<rparr>
                        else h2
                    | None \<Rightarrow> h2), Extensions := exts\<rparr>"
      by (simp add: parrotRandomizedNoALPN_def Let_def)
    show ?thesis
      unfolding r1 r2 withoutRandom_def using same same'
      by (auto split: option.splits)
  qed
qed

lemma parrotRandomizedALPN_random_only:
  assumes "parrotRandomizedALPN lib env1 uconn = Inr u1"
    and "parrotRandomizedALPN lib env2 uconn = Inr u2"
  shows "withoutRandom u1 = withoutRandom u2"
proof -
  from assms(1) obtain v1 where v1: "parrotRandomizedNoALPN lib env1 uconn = Inr v1"
    by (cases "parrotRandomizedNoALPN lib env1 uconn") (simp_all add: parrotRandomizedALPN_def)
  from assms(2) obtain v2 where v2: "parrotRandomizedNoALPN lib env2 uconn = Inr v2"
    by (cases "parrotRandomizedNoALPN lib env2 uconn") (simp_all add: parrotRandomizedALPN_def)
  have same: "withoutRandom v1 = withoutRandom v2"
    using v1 v2 by (rule parrotRandomizedNoALPN_random_only)
  then have fields: "NextProtos v1 = NextProtos v2" "Extensions v1 = Extensions v2"
    by (cases v1, cases v2, simp add: withoutRandom_def)+
  from assms v1 v2 same fields show ?thesis
    by (cases v1, cases v2) (auto simp: parrotRandomizedALPN_def withoutRandom_def Let_def)
qed

lemma plain_f32 [simp]: "f32 plainUtls x = x"
  by (simp add: plainUtls_def)

lemma plain_toss: "tossBiasedCoin plainUtls g p = (0 \<le> 65535 * p, g)"
  by (simp add: tossBiasedCoin_def plainUtls_def)

lemma plain_shuffle: "shuffleLoop [0..<k] i n s = Inr s" if "i + n \<le> length s" "length s \<le> k"
  using that by (induction n arbitrary: i s) (auto simp: swap_def)

lemma plain_shuffleWithPerm: "shuffleWithPerm plainUtls g s = (Inr s, g)"
  by (simp add: shuffleWithPerm_def plainUtls_def plain_shuffle)

lemma plain_extensions:
  "randomizedExtensions plainUtls (freshUConn\<lparr>clientHelloID := i\<rparr>) g =
     Inr [SNIExtension ''example.org'', SessionTicketExtension None,
          SignatureAlgorithmsExtension
            [(hashSHA256, signatureECDSA), (hashSHA256, signatureRSA),
             (hashSHA384, signatureECDSA), (hashSHA384, signatureRSA),
             (hashSHA1, signatureRSA), (disabledHashSHA512, signatureECDSA),
             (disabledHashSHA512, signatureRSA), (hashSHA1, signatureECDSA)],
          SupportedPointsExtension [pointFormatUncompressed],
          SupportedCurvesExtension [X25519, CurveP256, CurveP384, CurveP521],
          utlsPaddingExtension, StatusRequestExtension, SCTExtension,
          RenegotiationInfoExtension]"
  by (simp add: randomizedExtensions_def plain_toss plain_shuffleWithPerm appendIf_def
        freshUConn_def Let_def)

lemma plain_remove:
  "removeRandomCiphers plainUtls g [0xc02b, 0xc02f, 0x000a] (2 / 5) = ([0xc02b], g)"
  by (simp add: removeRandomCiphers_def removeLoop.simps plain_toss)

lemma plain_shuffled:
  "shuffledCiphers plainUtls g = (Inr [0xc02b, 0xc02f, 0x000a], g)"
  by (simp add: shuffledCiphers_def plainUtls_def sortCiphers_def Less_def upt_rec)

lemma plain_noALPN:
  assumes "randRead env = Inr bs" and "length bs = 32"
  shows "parrotRandomizedNoALPN plainUtls env (freshUConn\<lparr>clientHelloID := i\<rparr>) =
     Inr (freshUConn\<lparr>clientHelloID := i,
            Hello := \<lparr>Vers = VersionTLS12, Random = bs, SessionId = [],
                      CipherSuites = [0xc02b], CompressionMethods = [compressionNone]\<rparr>,
            Extensions := [SNIExtension ''example.org'', SessionTicketExtension None,
          SignatureAlgorithmsExtension
            [(hashSHA256, signatureECDSA), (hashSHA256, signatureRSA),
             (hashSHA384, signatureECDSA), (hashSHA384, signatureRSA),
             (hashSHA1, signatureRSA), (disabledHashSHA512, signatureECDSA),
             (disabledHashSHA512, signatureRSA), (hashSHA1, signatureECDSA)],
          SupportedPointsExtension [pointFormatUncompressed],
          SupportedCurvesExtension [X25519, CurveP256, CurveP384, CurveP521],
          utlsPaddingExtension, StatusRequestExtension, SCTExtension,
          RenegotiationInfoExtension]\<rparr>)"
proof -
  have fill: "fillClientHelloHeader plainUtls env
        ((Hello freshUConn)\<lparr>CipherSuites := [0xc02b]\<rparr>)
      = Inr \<lparr>Vers = VersionTLS12, Random = bs, SessionId = [],
              CipherSuites = [0xc02b], CompressionMethods = [compressionNone]\<rparr>"
    using assms by (simp add: fillClientHelloHeader_def freshUConn_def Let_def)
  have seed: "clientHelloPRNGSeed (freshUConn\<lparr>clientHelloID := i\<rparr>) = Some (replicate 32 5)"
    "Session (freshUConn\<lparr>clientHelloID := i\<rparr>) = None"
    by (simp_all add: freshUConn_def)
  show ?thesis
    by (simp add: parrotRandomizedNoALPN_def seed plain_shuffled plain_remove fill
          plain_extensions Let_def)
qed

text \<open>
  The client random is not drawn from the seeded generator: \<open>fillClientHelloHeader\<close>
  reads it from the TLS configuration's random source, as every TLS client does. Two
  assemblies of \<open>HelloRandomizedNoALPN\<close> with the same seed and connection carry the
  client randoms their random sources delivered.
\<close>

lemma client_random_not_from_seed:
  "map_sum id (Random \<circ> Hello)
     (generateClientHelloConfig plainUtls envOnes HelloRandomizedNoALPN freshUConn)
     = Inr (replicate 32 1) \<and>
   map_sum id (Random \<circ> Hello)
     (generateClientHelloConfig plainUtls envTwos HelloRandomizedNoALPN freshUConn)
     = Inr (replicate 32 2)"
proof -
  have r1: "randRead envOnes = Inr (replicate 32 1)" "length (replicate 32 (1 :: byte)) = 32"
    by (simp_all add: envOnes_def)
  have r2: "randRead envTwos = Inr (replicate 32 2)" "length (replicate 32 (2 :: byte)) = 32"
    by (simp_all add: envTwos_def)
  have a: "map_sum id (Random \<circ> Hello)
     (generateClientHelloConfig plainUtls envOnes HelloRandomizedNoALPN freshUConn)
     = Inr (replicate 32 1)"
    by (simp add: generateClientHelloConfig_def generateDirect_def Let_def plain_noALPN [OF r1])
  have b: "map_sum id (Random \<circ> Hello)
     (generateClientHelloConfig plainUtls envTwos HelloRandomizedNoALPN freshUConn)
     = Inr (replicate 32 2)"
    by (simp add: generateClientHelloConfig_def generateDirect_def Let_def plain_noALPN [OF r2])
  from a b show ?thesis by blast
qed

text \<open>
  Assembled directly, the identifiers \<open>HelloRandomizedALPN\<close> and
  \<open>HelloRandomizedNoALPN\<close> take every choice but the client random from the
  generator seeded with \<open>clientHelloPRNGSeed\<close>: for every seed and connection, two
  assemblies that both succeed have the same cipher suites, session id, signature
  algorithms, curves, optional extensions and extension order, whatever the
  process-wide generator and the random source deliver.
\<close>

lemma randomized_hello_deterministic:
  assumes "ident = HelloRandomizedALPN \<or> ident = HelloRandomizedNoALPN"
    and "generateClientHelloConfig lib env1 ident uconn = Inr u1"
    and "generateClientHelloConfig lib env2 ident uconn = Inr u2"
  shows "withoutRandom u1 = withoutRandom u2"
  using assms
  by (auto simp: generateClientHelloConfig_def generateDirect_def Let_def
        intro: parrotRandomizedALPN_random_only parrotRandomizedNoALPN_random_only)

text \<open>
  The alias \<open>HelloRandomized\<close> chooses between the two with \<open>prng.FlipCoin()\<close> of
  the process-wide generator. Whatever the library, the seed, the connection and the
  random sources: when the coin falls one way in one assembly and the other way in the
  next, the first message carries every extension of the second and the ALPN extension
  after them.
\<close>

lemma randomizedExtensions_clientHelloID:
  "randomizedExtensions lib (uconn\<lparr>clientHelloID := i\<rparr>) g = randomizedExtensions lib uconn g"
  by (simp add: randomizedExtensions_def
        cong del: prod.case_cong_weak sum.case_cong_weak)

lemma parrotRandomizedNoALPN_clientHelloID:
  "parrotRandomizedNoALPN lib env (uconn\<lparr>clientHelloID := i\<rparr>) =
     map_sum id (\<lambda>u. u\<lparr>clientHelloID := i\<rparr>) (parrotRandomizedNoALPN lib env uconn)"
  by (auto simp: parrotRandomizedNoALPN_def randomizedExtensions_clientHelloID Let_def
        split: option.splits sum.splits prod.splits)

lemma randomized_alias_coin_decides_ALPN:
  assumes "flipCoin env1" and "\<not> flipCoin env2"
    and "generateClientHelloConfig lib env1 HelloRandomized uconn = Inr u1"
    and "generateClientHelloConfig lib env2 HelloRandomized uconn = Inr u2"
  shows "Extensions u1 = Extensions u2 @ [ALPNExtension (NextProtos u1)]"
proof -
  from assms(1,3) have g1: "parrotRandomizedALPN lib env1
      (uconn\<lparr>clientHelloID := HelloRandomizedALPN\<rparr>) = Inr u1"
    by (simp add: generateClientHelloConfig_def generateDirect_def Let_def)
  from assms(2,4) have g2: "parrotRandomizedNoALPN lib env2
      (uconn\<lparr>clientHelloID := HelloRandomizedNoALPN\<rparr>) = Inr u2"
    by (simp add: generateClientHelloConfig_def generateDirect_def Let_def)
  from g1 obtain w1 where w1: "parrotRandomizedNoALPN lib env1
      (uconn\<lparr>clientHelloID := HelloRandomizedALPN\<rparr>) = Inr w1"
    by (cases "parrotRandomizedNoALPN lib env1 (uconn\<lparr>clientHelloID := HelloRandomizedALPN\<rparr>)")
       (simp_all add: parrotRandomizedALPN_def)
  from w1 obtain v1 where v1: "parrotRandomizedNoALPN lib env1 uconn = Inr v1"
      and w1v: "w1 = v1\<lparr>clientHelloID := HelloRandomizedALPN\<rparr>"
    by (cases "parrotRandomizedNoALPN lib env1 uconn")
       (auto simp: parrotRandomizedNoALPN_clientHelloID)
  from g2 obtain v2 where v2: "parrotRandomizedNoALPN lib env2 uconn = Inr v2"
      and u2v: "u2 = v2\<lparr>clientHelloID := HelloRandomizedNoALPN\<rparr>"
    by (cases "parrotRandomizedNoALPN lib env2 uconn")
       (auto simp: parrotRandomizedNoALPN_clientHelloID)
  have "withoutRandom v1 = withoutRandom v2"
    using v1 v2 by (rule parrotRandomizedNoALPN_random_only)
  then have same: "Extensions v1 = Extensions v2"
    by (cases v1, cases v2, simp add: withoutRandom_def)
  from g1 w1 have "Extensions u1 = Extensions w1 @ [ALPNExtension (NextProtos u1)]"
    by (auto simp: parrotRandomizedALPN_def Let_def split: if_splits)
  with w1v u2v same show ?thesis by simp
qed


section \<open>Facts about the stored configuration version\<close>

text \<open>
  \<open>StoreServerEntry\<close> starts from \<open>existingConfigurationVersion := -1\<close> and takes
  a record for existing when the version it read is greater than \<open>-1\<close>. A record that
  decodes with a negative version is therefore treated like one that does not decode:
  over a stored version \<open>-2\<close>, an entry with version \<open>-3\<close> and
  \<open>replaceIfExists = false\<close> is written.
  \<open>protocol.ValidateServerEntryFields\<close> is a parameter of \<open>StoreServerEntry\<close>
  here, and the lemma runs it with one that accepts every entry.
\<close>

lemma StoreServerEntry_negative_version_replaced:
  "storedVersion (storeAB\<lparr>serverEntries :=
       [(''192.0.2.1'', Encoded (entryA\<lparr>ConfigurationVersion := - 2\<rparr>))]\<rparr>) ''192.0.2.1''
     = Some (- 2) \<and>
   map_option (\<lambda>db. storedVersion db ''192.0.2.1'')
     (snd (StoreServerEntry acceptAll (entryA\<lparr>ConfigurationVersion := - 3\<rparr>) False
        (Some (storeAB\<lparr>serverEntries :=
           [(''192.0.2.1'', Encoded (entryA\<lparr>ConfigurationVersion := - 2\<rparr>))]\<rparr>))))
     = Some (Some (- 3))"
  by (simp add: StoreServerEntry_def datastoreUpdate_def storedVersion_def bucket_get_def
        storeAB_def emptyStore_def acceptAll_def entryA_def Let_def)


section \<open>Facts about the TLS dial\<close>

text \<open>
  An error returned with the raw connection opened and never closed comes from one of
  four steps: decoding the session ticket key, loading the root CAs, choosing the seed,
  or setting up the TLS connection object. Every other error return has closed it.
\<close>

lemma CustomTLSDial_unclosed_error_paths:
  assumes "returned (CustomTLSDial env network addr cfg) = Inl e"
    and "rawOpened (CustomTLSDial env network addr cfg)"
    and "rawCloses (CustomTLSDial env network addr cfg) = 0"
  shows "decodeSessionTicketKey env cfg = Inl e \<or> loadRootCAs env cfg = Inl e \<or>
     (\<exists>profile. chooseSeed env cfg profile = Inl e) \<or>
     (\<exists>profile name insecure roots seed key.
        makeConn env profile name insecure roots seed key = Inl e)"
proof -
  let ?dialAddr = "if DialAddr cfg \<noteq> [] then DialAddr cfg else addr"
  from assms(2) have d: "dialResult env network ?dialAddr = None"
    by (cases "dialResult env network ?dialAddr") (simp_all add: CustomTLSDial_def Let_def)
  from assms(3) d obtain hostname port where
    sp: "splitHostPort env ?dialAddr = Inr (hostname, port)"
    by (cases "splitHostPort env ?dialAddr") (auto simp add: CustomTLSDial_def Let_def)
  show ?thesis
  proof (cases "decodeSessionTicketKey env cfg")
    case (Inl e1)
    with assms(1) d sp show ?thesis by (simp add: CustomTLSDial_def Let_def)
  next
    case (Inr ticketKey)
    note k = this
    show ?thesis
    proof (cases "loadRootCAs env cfg")
      case (Inl e2)
      with assms(1) d sp k show ?thesis by (simp add: CustomTLSDial_def Let_def)
    next
      case (Inr roots)
      note r = this
      let ?profile = "if TLSProfile cfg = None then selectTLSProfile env else TLSProfile cfg"
      show ?thesis
      proof (cases "chooseSeed env cfg ?profile")
        case (Inl e3)
        with assms(1) d sp k r have "e3 = e" by (simp add: CustomTLSDial_def Let_def)
        with Inl show ?thesis by blast
      next
        case (Inr seed)
        note sd = this
        let ?name = "if UseDialAddrSNI cfg then hostname
             else if SNIServerName cfg \<noteq> [] \<and> VerifyLegacyCertificate cfg = None
             then SNIServerName cfg else []"
        let ?insecure = "SkipVerify cfg \<or>
             \<not> (UseDialAddrSNI cfg \<or>
                (SNIServerName cfg \<noteq> [] \<and> VerifyLegacyCertificate cfg = None))"
        show ?thesis
        proof (cases "makeConn env ?profile ?name ?insecure roots seed ticketKey")
          case (Inl e4)
          with assms(1) d sp k r sd have "e4 = e" by (simp add: CustomTLSDial_def Let_def)
          with Inl show ?thesis by blast
        next
          case (Inr conn)
          with assms(1,3) d sp k r sd show ?thesis
            by (simp add: CustomTLSDial_def Let_def split: sum.splits)
        qed
      qed
    qed
  qed
qed

section \<open>The store policy\<close>

text \<open>
  C9. Promoting an address that has no stored server entry is a silent no-op on an
  open store: \<open>PromoteServerEntry\<close> returns no error and the store, hence both the
  affinity identifier and the persisted filter value, is exactly what it was. A promote
  of an address that has an entry returns no error as well and writes both keys: the
  affinity identifier becomes the address and the filter value that of the
  configuration; the server entries are untouched.
\<close>

theorem PromoteServerEntry_unknown_noop:
  "\<exists>db'. PromoteServerEntry cfg ipAddress (Some db) = (None, Some db') \<and>
     serverEntries db' = serverEntries db \<and> dialParameters db' = dialParameters db \<and>
     (bucket_get (serverEntries db) ipAddress = None \<longrightarrow> db' = db) \<and>
     (bucket_get (serverEntries db) ipAddress \<noteq> None \<longrightarrow>
        bucket_get (keyValues db') datastoreAffinityServerEntryIDKey = Some ipAddress \<and>
        bucket_get (keyValues db') datastoreLastServerEntryFilterKey =
          Some (makeServerEntryFilterValue cfg))"
  by (cases "bucket_get (serverEntries db) ipAddress")
     (simp_all add: PromoteServerEntry_def datastoreUpdate_def Let_def)

theorem PromoteServerEntry_unknown_noop_witness:
  "PromoteServerEntry configUS ''198.51.100.7'' (Some storeAB) = (None, Some storeAB) \<and>
   (\<exists>db'. PromoteServerEntry configUS ''192.0.2.1'' (Some storeAB) = (None, Some db') \<and>
      bucket_get (keyValues db') datastoreAffinityServerEntryIDKey = Some ''192.0.2.1'' \<and>
      bucket_get (keyValues db') datastoreLastServerEntryFilterKey = Some ''US'')"
proof -
  have absent: "bucket_get (serverEntries storeAB) ''198.51.100.7'' = None"
    by (simp add: storeAB_def emptyStore_def bucket_get_def)
  have present: "bucket_get (serverEntries storeAB) ''192.0.2.1'' \<noteq> None"
    by (simp add: storeAB_def emptyStore_def bucket_get_def)
  have filter: "makeServerEntryFilterValue configUS = ''US''"
    by (simp add: makeServerEntryFilterValue_def configUS_def)
  from PromoteServerEntry_unknown_noop [of configUS "''198.51.100.7''" storeAB] absent
  have first: "PromoteServerEntry configUS ''198.51.100.7'' (Some storeAB) = (None, Some storeAB)"
    by auto
  from PromoteServerEntry_unknown_noop [of configUS "''192.0.2.1''" storeAB] present filter
  have second: "\<exists>db'. PromoteServerEntry configUS ''192.0.2.1'' (Some storeAB) = (None, Some db') \<and>
      bucket_get (keyValues db') datastoreAffinityServerEntryIDKey = Some ''192.0.2.1'' \<and>
      bucket_get (keyValues db') datastoreLastServerEntryFilterKey = Some ''US''"
    by auto
  from first second show ?thesis by blast
qed



section \<open>The iterator\<close>

text \<open>
  C7. An initial-round reset of a store iterator with a positive replay candidate
  count, on an open store: in the list it leaves in the iterator, from the slot where
  the shuffled region starts (after the affinity slot, if there is one), no identifier
  without a dial-parameter record for the current network stands before one that has
  a record; the list is a permutation of the list as it was after the shuffle, and the
  slots before the shuffled region are as the shuffle left them.
\<close>

theorem reset_replay_partition:
  assumes "ReplayCandidateCount (config iterator) > 0"
    and "\<not> isTargetServerEntryIterator iterator"
  shows "\<exists>it'. reset True iterator rnd (Some db) = Inr it' \<and>
     partitioned (hasDialParameters db (NetworkID (config iterator)))
       (resetShuffleHead True iterator db) (serverEntryIDs it') \<and>
     mset (serverEntryIDs it') = mset (resetShuffled True iterator rnd db) \<and>
     take (resetShuffleHead True iterator db) (serverEntryIDs it') =
       take (resetShuffleHead True iterator db) (resetShuffled True iterator rnd db)"
proof -
  let ?it = "Close iterator"
  let ?h = "resetShuffleHead True ?it db"
  let ?ids2 = "resetShuffled True ?it rnd db"
  let ?has = "hasDialParameters db (NetworkID (config ?it))"
  let ?out = "partitionLoop ?has (int ?h) (int (length ?ids2) - 1) ?ids2"
  have res: "reset True iterator rnd (Some db)
      = Inr (?it\<lparr>serverEntryIDs := ?out, serverEntryIndex := 0\<rparr>)"
    using assms by (simp add: reset_def Let_def datastoreView_def resetIDs_def Close_def)
  have p: "partitioned ?has (nat (int ?h)) ?out"
    by (rule partitionLoop_partitioned) (simp_all add: partInv_initial)
  have m: "mset ?out = mset ?ids2"
    by (rule partitionLoop_mset) simp_all
  have t: "take ?h ?out = take ?h ?ids2"
    by (rule nth_take_lemma) (simp_all add: partitionLoop_prefix resetShuffled_length)
  from res p m t show ?thesis by (simp add: reset_Close_same)
qed

theorem reset_replay_partition_witness:
  "ReplayCandidateCount (config freshIterator) > 0 \<and>
   \<not> isTargetServerEntryIterator freshIterator \<and>
   hasDialParameters storeReplay ''wifi'' ''192.0.2.1'' \<and>
   \<not> hasDialParameters storeReplay ''wifi'' ''192.0.2.2'' \<and>
   resetShuffled True freshIterator [0, 0] storeReplay = [''192.0.2.2'', ''192.0.2.1''] \<and>
   (\<exists>it'. reset True freshIterator [0, 0] (Some storeReplay) = Inr it' \<and>
      serverEntryIDs it' = [''192.0.2.1'', ''192.0.2.2''] \<and>
      partitioned (hasDialParameters storeReplay ''wifi'') 0 (serverEntryIDs it') \<and>
      mset (serverEntryIDs it') = mset [''192.0.2.2'', ''192.0.2.1''])"
proof -
  have h1: "ReplayCandidateCount (config freshIterator) > 0"
    by (simp add: freshIterator_def configUS_def)
  have h2: "\<not> isTargetServerEntryIterator freshIterator"
    by (simp add: freshIterator_def)
  have recA: "hasDialParameters storeReplay ''wifi'' ''192.0.2.1''"
    by (simp add: hasDialParameters_def storeReplay_def makeDialParametersKey_def bucket_get_def)
  have recB: "\<not> hasDialParameters storeReplay ''wifi'' ''192.0.2.2''"
    by (simp add: hasDialParameters_def storeReplay_def makeDialParametersKey_def bucket_get_def)
  have shuffled: "resetShuffled True freshIterator [0, 0] storeReplay
      = [''192.0.2.2'', ''192.0.2.1'']"
    by (simp add: resetShuffled_def resetShuffleHead_def resetAffinity_def freshIterator_def
        storeReplay_def storeAB_def emptyStore_def configUS_def cursor_keys_def swap_def Let_def)
  have ran: "reset True freshIterator [0, 0] (Some storeReplay)
      = Inr (freshIterator\<lparr>serverEntryIDs := [''192.0.2.1'', ''192.0.2.2'']\<rparr>)"
    by (simp add: reset_def Close_def freshIterator_def datastoreView_def resetIDs_def
        resetShuffled_def resetShuffleHead_def resetAffinity_def storeReplay_def storeAB_def
        emptyStore_def configUS_def cursor_keys_def swap_def Let_def hasDialParameters_def
        makeDialParametersKey_def bucket_get_def partitionLoop.simps advance.simps
        retreat.simps)
  have head: "resetShuffleHead True freshIterator storeReplay = 0"
    by (simp add: resetShuffleHead_def resetAffinity_def freshIterator_def)
  have net: "NetworkID (config freshIterator) = ''wifi''"
    by (simp add: freshIterator_def configUS_def)
  from reset_replay_partition [OF h1 h2, of "[0, 0]" storeReplay] ran shuffled head net
  have "\<exists>it'. reset True freshIterator [0, 0] (Some storeReplay) = Inr it' \<and>
      serverEntryIDs it' = [''192.0.2.1'', ''192.0.2.2''] \<and>
      partitioned (hasDialParameters storeReplay ''wifi'') 0 (serverEntryIDs it') \<and>
      mset (serverEntryIDs it') = mset [''192.0.2.2'', ''192.0.2.1'']"
    by auto
  with h1 h2 recA recB shuffled show ?thesis by blast
qed

text \<open>
  C6, as the claim states it, fails. Entry A (region CA) and entry B (region US) are
  stored; A is promoted under a configuration whose egress region is US; an iterator
  is then constructed under the same configuration. The persisted filter value equals
  the current one, so affinity is honored and A takes slot 0, but \<open>Next\<close> applies
  the region filter to it, skips it, and returns B.
\<close>

theorem affinity_first_next_counterexample:
  "StoreServerEntry acceptAll entryB False
     (snd (StoreServerEntry acceptAll entryA False (Some emptyStore))) = (None, Some storeAB) \<and>
   PromoteServerEntry configUS ''192.0.2.1'' (Some storeAB) = (None, Some storePromoted) \<and>
   bucket_get (keyValues storePromoted) datastoreAffinityServerEntryIDKey = Some ''192.0.2.1'' \<and>
   bucket_get (serverEntries storePromoted) ''192.0.2.1'' = Some (Encoded entryA) \<and>
   firstNext True configUS [] (Some storePromoted) = Inr (True, Inr (Some entryB)) \<and>
   entryB \<noteq> MakeCompatibleServerEntry entryA"
proof -
  have stores: "StoreServerEntry acceptAll entryB False
      (snd (StoreServerEntry acceptAll entryA False (Some emptyStore))) = (None, Some storeAB)"
    by (simp add: StoreServerEntry_def datastoreUpdate_def storeAB_def emptyStore_def
        bucket_get_def acceptAll_def entryA_def entryB_def Let_def)
  have promote: "PromoteServerEntry configUS ''192.0.2.1'' (Some storeAB)
      = (None, Some storePromoted)"
    by (simp add: PromoteServerEntry_def datastoreUpdate_def storeAB_def emptyStore_def
        bucket_get_def storePromoted_def configUS_def makeServerEntryFilterValue_def
        datastoreLastServerEntryFilterKey_def datastoreAffinityServerEntryIDKey_def Let_def)
  have aff: "bucket_get (keyValues storePromoted) datastoreAffinityServerEntryIDKey
      = Some ''192.0.2.1''"
    by (simp add: storePromoted_def bucket_get_def datastoreAffinityServerEntryIDKey_def)
  have rec: "bucket_get (serverEntries storePromoted) ''192.0.2.1'' = Some (Encoded entryA)"
    by (simp add: storePromoted_def storeAB_def emptyStore_def bucket_get_def)
  have run: "firstNext True configUS [] (Some storePromoted) = Inr (True, Inr (Some entryB))"
    by (simp add: firstNext_def NewServerEntryIterator_def configUS_def
        hasServerEntryFilterChanged_def makeServerEntryFilterValue_def datastoreView_def
        storePromoted_def storeAB_def emptyStore_def bucket_get_def
        datastoreLastServerEntryFilterKey_def datastoreAffinityServerEntryIDKey_def
        reset_def Close_def resetIDs_def resetShuffled_def resetShuffleHead_def
        resetAffinity_def cursor_keys_def swap_def Let_def hasDialParameters_def
        makeDialParametersKey_def partitionLoop.simps advance.simps retreat.simps
        Next_def NextLoop.simps passesFilter_def entryA_def entryB_def
        MakeCompatibleServerEntry_def)
  have differ: "entryB \<noteq> MakeCompatibleServerEntry entryA"
    by (simp add: entryA_def entryB_def MakeCompatibleServerEntry_def)
  from stores promote aff rec run differ show ?thesis by blast
qed

text \<open>
  C6, amended. On a store produced by the store's own operations (the two reserved
  keys are written by \<open>PromoteServerEntry\<close> only), for every iterator constructed
  over the store (no target server entry configured): affinity is honored
  exactly when an affinity identifier is recorded and the persisted filter value equals
  the one derived from the current configuration. When it is honored, the affinity
  identifier has a record that decodes, and the first call to \<open>Next\<close> returns that
  entry (made compatible) provided the entry passes the iterator's egress-region
  filter: the configured region is empty or is the entry's region.
\<close>

theorem affinity_honored_first_next:
  assumes "reachable db" and "TargetServerEntry cfg = None"
  shows "\<exists>honored r. firstNext s cfg rnd (Some db) = Inr (honored, r) \<and>
     (honored \<longleftrightarrow>
        bucket_get (keyValues db) datastoreAffinityServerEntryIDKey \<noteq> None \<and>
        bucket_get (keyValues db) datastoreLastServerEntryFilterKey =
          Some (makeServerEntryFilterValue cfg)) \<and>
     (honored \<longrightarrow>
        (\<exists>a e. bucket_get (keyValues db) datastoreAffinityServerEntryIDKey = Some a \<and>
               bucket_get (serverEntries db) a = Some (Encoded e) \<and>
               (EgressRegion cfg = [] \<or> Region e = EgressRegion cfg \<longrightarrow>
                  r = Inr (Some (MakeCompatibleServerEntry e)))))"
proof -
  from assms(1) have inv: "storeInv db" by (rule reachable_storeInv)
  define honored where "honored =
    (bucket_get (keyValues db) datastoreLastServerEntryFilterKey
       = Some (makeServerEntryFilterValue cfg))"
  define it0 where "it0 = \<lparr>config = cfg, applyServerAffinity = honored,
      serverEntryIDs = [], serverEntryIndex = 0, isTacticsServerEntryIterator = False,
      isTargetServerEntryIterator = False, hasNextTargetServerEntry = False,
      targetServerEntry = None\<rparr>"
  define it where "it = it0\<lparr>serverEntryIDs := resetIDs True it0 rnd db, serverEntryIndex := 0\<rparr>"
  have changed: "hasServerEntryFilterChanged cfg (Some db) = Inr (\<not> honored)"
    by (auto simp: hasServerEntryFilterChanged_def datastoreView_def honored_def Let_def
          split: option.splits)
  have rs: "reset True it0 rnd (Some db) = Inr it"
    by (simp add: reset_def Let_def datastoreView_def it_def it0_def Close_def)
  have new: "NewServerEntryIterator s cfg rnd (Some db) = Inr (honored, it)"
    using assms(2) changed rs
    by (simp add: NewServerEntryIterator_def Let_def it0_def [symmetric])
  then have fn: "firstNext s cfg rnd (Some db) = Inr (honored, fst (Next it (Some db)))"
    by (simp add: firstNext_def)
  have iff: "honored \<longleftrightarrow>
        bucket_get (keyValues db) datastoreAffinityServerEntryIDKey \<noteq> None \<and>
        bucket_get (keyValues db) datastoreLastServerEntryFilterKey =
          Some (makeServerEntryFilterValue cfg)"
    using inv by (auto simp: honored_def storeInv_def)
  have nxt: "\<exists>a e. bucket_get (keyValues db) datastoreAffinityServerEntryIDKey = Some a \<and>
               bucket_get (serverEntries db) a = Some (Encoded e) \<and>
               (EgressRegion cfg = [] \<or> Region e = EgressRegion cfg \<longrightarrow>
                  fst (Next it (Some db)) = Inr (Some (MakeCompatibleServerEntry e)))"
    if h: honored
  proof -
    from h iff obtain a where a: "bucket_get (keyValues db) datastoreAffinityServerEntryIDKey = Some a"
      by auto
    with inv obtain e where e: "bucket_get (serverEntries db) a = Some (Encoded e)"
      by (auto simp: storeInv_def)
    from a h have aff: "resetAffinity True it0 db = Some a"
      by (simp add: resetAffinity_def it0_def)
    from resetIDs_affinity_head [OF aff, of rnd]
    have ids: "serverEntryIDs it \<noteq> []" "serverEntryIDs it ! 0 = a" "serverEntryIndex it = 0"
      by (simp_all add: it_def)
    have "fst (Next it (Some db)) = Inr (Some (MakeCompatibleServerEntry e))"
      if pass: "EgressRegion cfg = [] \<or> Region e = EgressRegion cfg"
    proof -
      have pf: "passesFilter (it\<lparr>serverEntryIndex := 1\<rparr>) e"
        using pass by (simp add: passesFilter_def it_def it0_def)
      have "NextLoop it (Some db)
          = (Inr (Some (MakeCompatibleServerEntry e)), it\<lparr>serverEntryIndex := 1\<rparr>)"
        using ids e pf
        by (simp add: NextLoop.simps [of it] datastoreView_def Let_def)
      then show ?thesis by (simp add: Next_def it_def it0_def)
    qed
    with a e show ?thesis by blast
  qed
  from fn iff nxt show ?thesis by blast
qed


theorem affinity_honored_first_next_witness:
  "reachable storePromotedCA \<and> TargetServerEntry configCA = None \<and>
   firstNext True configCA [] (Some storePromotedCA) = Inr (True, Inr (Some entryA))"
proof -
  have s1: "StoreServerEntry acceptAll entryA False (Some emptyStore)
      = (None, Some (emptyStore\<lparr>serverEntries := [(''192.0.2.1'', Encoded entryA)]\<rparr>))"
    by (simp add: StoreServerEntry_def datastoreUpdate_def emptyStore_def
        bucket_get_def acceptAll_def entryA_def Let_def)
  have s2: "StoreServerEntry acceptAll entryB False
      (Some (emptyStore\<lparr>serverEntries := [(''192.0.2.1'', Encoded entryA)]\<rparr>))
      = (None, Some storeAB)"
    by (simp add: StoreServerEntry_def datastoreUpdate_def storeAB_def emptyStore_def
        bucket_get_def acceptAll_def entryA_def entryB_def Let_def)
  have s3: "PromoteServerEntry configCA ''192.0.2.1'' (Some storeAB)
      = (None, Some storePromotedCA)"
    by (simp add: PromoteServerEntry_def datastoreUpdate_def storeAB_def emptyStore_def
        bucket_get_def storePromotedCA_def configCA_def configUS_def
        makeServerEntryFilterValue_def datastoreLastServerEntryFilterKey_def
        datastoreAffinityServerEntryIDKey_def Let_def)
  have r: "reachable storePromotedCA"
    by (rule reach_promote [OF reach_store [OF reach_store [OF reach_empty s1] s2] s3])
  have t: "TargetServerEntry configCA = None"
    by (simp add: configCA_def configUS_def)
  have aff: "bucket_get (keyValues storePromotedCA) datastoreAffinityServerEntryIDKey
      = Some ''192.0.2.1''"
    by (simp add: storePromotedCA_def bucket_get_def datastoreAffinityServerEntryIDKey_def)
  have flt: "bucket_get (keyValues storePromotedCA) datastoreLastServerEntryFilterKey
      = Some (makeServerEntryFilterValue configCA)"
    by (simp add: storePromotedCA_def bucket_get_def datastoreLastServerEntryFilterKey_def
        makeServerEntryFilterValue_def configCA_def configUS_def)
  have rec: "bucket_get (serverEntries storePromotedCA) ''192.0.2.1'' = Some (Encoded entryA)"
    by (simp add: storePromotedCA_def storeAB_def emptyStore_def bucket_get_def)
  have reg: "Region entryA = EgressRegion configCA"
    by (simp add: entryA_def configCA_def configUS_def)
  have compat: "MakeCompatibleServerEntry entryA = entryA"
    by (simp add: MakeCompatibleServerEntry_def entryA_def)
  from affinity_honored_first_next [OF r t, of True "[]"] aff flt rec reg compat
  have "firstNext True configCA [] (Some storePromotedCA) = Inr (True, Inr (Some entryA))"
    by auto
  with r t show ?thesis by blast
qed

section \<open>The obfuscator's seed message\<close>

text \<open>
  C4. The server reads the 16-byte seed and the 8 bytes of fixed-length fields,
  decrypts the fields and tests the magic value before it looks at the padding length:
  whenever the decrypted magic value is not \<open>0x0BF5CA7E\<close>, whatever the padding
  length field holds, \<open>readSeedMessage\<close> returns the invalid-magic error and the
  client stream stands right after those 24 bytes, so no padding byte has been read.
\<close>

theorem readSeedMessage_magic_first:
  assumes "length seed = OBFUSCATE_SEED_LENGTH" and "length fixed = 8"
    and "initObfuscatorCiphers lib seed cfg = Inr (c2s, s2c)"
    and "readInt32 (take 4 (fst (XORKeyStream (rc4Next lib) c2s fixed)))
           \<noteq> OBFUSCATE_MAGIC_VALUE"
  shows "readSeedMessage lib env cfg (seed @ fixed @ rest) = (Inl InvalidMagicValue, rest)"
proof (cases "XORKeyStream (rc4Next lib) c2s fixed")
  case (Pair plainFields c2s1)
  with assms show ?thesis
    by (simp add: readSeedMessage_def readFull_append Let_def)
qed


theorem readSeedMessage_magic_first_witness:
  "length (replicate 16 (7 :: byte)) = OBFUSCATE_SEED_LENGTH \<and>
   length (putUint32 0 @ putUint32 9000) = 8 \<and>
   initObfuscatorCiphers plainLib (replicate 16 7) clientConfig = Inr ((), ()) \<and>
   readInt32 (take 4 (fst (XORKeyStream (rc4Next plainLib) () (putUint32 0 @ putUint32 9000))))
     \<noteq> OBFUSCATE_MAGIC_VALUE \<and>
   readSeedMessage plainLib goodEnv clientConfig
     (replicate 16 7 @ (putUint32 0 @ putUint32 9000) @ replicate 40 3)
     = (Inl InvalidMagicValue, replicate 40 3)"
proof -
  have h1: "length (replicate 16 (7 :: byte)) = OBFUSCATE_SEED_LENGTH"
    by (simp add: OBFUSCATE_SEED_LENGTH_def)
  have h2: "length (putUint32 0 @ putUint32 9000) = 8" by simp
  have h3: "initObfuscatorCiphers plainLib (replicate 16 7) clientConfig = Inr ((), ())"
    by (rule plainLib_ciphers)
  have h4: "readInt32 (take 4 (fst (XORKeyStream (rc4Next plainLib) ()
        (putUint32 0 @ putUint32 9000)))) \<noteq> OBFUSCATE_MAGIC_VALUE"
    by (simp add: XORKeyStream_plain zero_roundtrip OBFUSCATE_MAGIC_VALUE_def)
  from readSeedMessage_magic_first [OF h1 h2 h3 h4, of goodEnv "replicate 40 3"] h1 h2 h3 h4
  show ?thesis by blast
qed


text \<open>
  C10, as the claim states it, fails: with a valid seed message whose padding is
  5 bytes long, shorter than the PRNG seed, the server asks \<open>prng.NewSeed\<close> for a
  fresh seed, and when that call returns an error, \<open>readSeedMessage\<close> returns it.
\<close>

theorem short_padding_fails_without_entropy:
  "readSeedMessage plainLib failingEnv clientConfig shortPaddingMessage
     = (Inl RandomSourceFailed, [])"
proof -
  let ?seed = "replicate 16 (7 :: byte)"
  let ?fixed = "putUint32 (nat OBFUSCATE_MAGIC_VALUE) @ putUint32 5"
  let ?padding = "replicate 5 (3 :: byte)"
  have "readSeedMessage plainLib failingEnv clientConfig (?seed @ ?fixed @ ?padding @ [])
      = (if length ?padding \<ge> SEED_LENGTH plainLib
         then Inr ((), (), take (SEED_LENGTH plainLib) ?padding)
         else (case newSeed failingEnv of
                 Inl e \<Rightarrow> Inl e
               | Inr fresh \<Rightarrow> Inr ((), (), fresh)), [])"
    by (rule readSeedMessage_accepts [where plainFields = ?fixed])
       (simp_all add: OBFUSCATE_SEED_LENGTH_def plainLib_ciphers XORKeyStream_plain
          magic_roundtrip five_roundtrip OBFUSCATE_MAX_PADDING_def)
  then show ?thesis
    by (simp add: shortPaddingMessage_def plainLib_def failingEnv_def)
qed

text \<open>
  C10, amended. For every seed message with a valid magic value and a valid padding
  length smaller than the PRNG seed length, all of whose padding is on the stream, the
  server does not reject the message and does not derive the padding PRNG seed from
  the client's padding: the outcome of \<open>readSeedMessage\<close> is the outcome of
  \<open>prng.NewSeed\<close>, the fresh seed together with the two ciphers when it succeeds and
  its error when it fails; exactly the message has been read from the stream.
\<close>

theorem readSeedMessage_short_padding:
  assumes "length seed = OBFUSCATE_SEED_LENGTH" and "length fixed = 8"
    and "initObfuscatorCiphers lib seed cfg = Inr (c2s, s2c)"
    and "XORKeyStream (rc4Next lib) c2s fixed = (plainFields, c2s1)"
    and "readInt32 (take 4 plainFields) = OBFUSCATE_MAGIC_VALUE"
    and "readInt32 (drop 4 plainFields) = int (length padding)"
    and "int (length padding) \<le> OBFUSCATE_MAX_PADDING"
    and "length padding < SEED_LENGTH lib"
    and "XORKeyStream (rc4Next lib) c2s1 padding = (plainPadding, c2s2)"
  shows "readSeedMessage lib env cfg (seed @ fixed @ padding @ rest) =
     ((case newSeed env of
         Inl e \<Rightarrow> Inl e
       | Inr fresh \<Rightarrow> Inr (c2s2, s2c, fresh)), rest)"
  using readSeedMessage_accepts [OF assms(1-7) assms(9), of env rest] assms(8)
  by simp


theorem readSeedMessage_short_padding_witness:
  "readSeedMessage plainLib goodEnv clientConfig shortPaddingMessage
     = (Inr ((), (), replicate 32 9), [])"
proof -
  let ?seed = "replicate 16 (7 :: byte)"
  let ?fixed = "putUint32 (nat OBFUSCATE_MAGIC_VALUE) @ putUint32 5"
  let ?padding = "replicate 5 (3 :: byte)"
  have "readSeedMessage plainLib goodEnv clientConfig (?seed @ ?fixed @ ?padding @ [])
      = ((case newSeed goodEnv of
            Inl e \<Rightarrow> Inl e
          | Inr fresh \<Rightarrow> Inr ((), (), fresh)), [])"
    by (rule readSeedMessage_short_padding [where plainFields = ?fixed])
       (simp_all add: OBFUSCATE_SEED_LENGTH_def plainLib_ciphers XORKeyStream_plain
          magic_roundtrip five_roundtrip OBFUSCATE_MAX_PADDING_def)
  then show ?thesis
    by (simp add: shortPaddingMessage_def goodEnv_def)
qed

section \<open>The client's padding range\<close>






section \<open>The TLS dial and its raw connection\<close>

text \<open>
  C3. The raw connection opens (every outside step succeeds), the configured
  obfuscated session ticket key decodes to one byte instead of 32, and
  \<open>CustomTLSDial\<close> returns the key-length error without a single call of
  \<open>rawConn.Close()\<close>. The same return without a close is taken when the key is not
  hex, when the CA file cannot be read, when no seed can be generated, when the session
  state cannot be made and when the profile is not a TLS 1.3 one; the address split,
  the handshake and the verification do close the raw connection before returning.
\<close>

theorem CustomTLSDial_key_error_leaves_rawConn_open:
  "CustomTLSDial dialEnvOK ''tcp'' ''example.org:443'' shortKeyConfig =
     \<lparr>returned = Inl InvalidSessionKeyLength, rawOpened = True, rawCloses = 0\<rparr>"
  by (simp add: CustomTLSDial_def dialEnvOK_def shortKeyConfig_def decodeSessionTicketKey_def
        Let_def)

section \<open>Replaying a randomized ClientHello\<close>

text \<open>
  C1. The dialer gives the randomized profile \<open>TLS_PROFILE_RANDOMIZED\<close> the
  identifier \<open>HelloRandomized\<close>, and \<open>RandomizedTLSProfileSeed\<close> is documented to
  allow the replay of a particular randomized ClientHello. Two assemblies for that
  profile with the same seed, the same connection and the same 32 bytes from the random
  source nevertheless differ: where the process-wide coin falls one way the message has
  ten extensions, the last of them the ALPN extension for \<open>h2\<close> and \<open>http/1.1\<close>;
  where it falls the other way the message has nine and no ALPN extension. The two
  messages are different also with the client random blanked, so the message of this
  profile is not a function of the profile and the seed.
\<close>

theorem randomized_alias_follows_global_coin:
  "getUTLSClientHelloID TLS_PROFILE_RANDOMIZED = HelloRandomized \<and>
   randRead (envOnes\<lparr>flipCoin := False\<rparr>) = randRead envOnes \<and>
   flipCoin envOnes \<and> \<not> flipCoin (envOnes\<lparr>flipCoin := False\<rparr>) \<and>
   map_sum id (\<lambda>u. (length (Extensions u), last (Extensions u)))
     (generateClientHelloConfig plainUtls envOnes
        (getUTLSClientHelloID TLS_PROFILE_RANDOMIZED) freshUConn)
     = Inr (10, ALPNExtension [''h2'', ''http/1.1'']) \<and>
   map_sum id (\<lambda>u. (length (Extensions u), last (Extensions u)))
     (generateClientHelloConfig plainUtls (envOnes\<lparr>flipCoin := False\<rparr>)
        (getUTLSClientHelloID TLS_PROFILE_RANDOMIZED) freshUConn)
     = Inr (9, RenegotiationInfoExtension) \<and>
   map_sum id withoutRandom
     (generateClientHelloConfig plainUtls envOnes
        (getUTLSClientHelloID TLS_PROFILE_RANDOMIZED) freshUConn) \<noteq>
   map_sum id withoutRandom
     (generateClientHelloConfig plainUtls (envOnes\<lparr>flipCoin := False\<rparr>)
        (getUTLSClientHelloID TLS_PROFILE_RANDOMIZED) freshUConn)"
proof -
  let ?heads = "generateClientHelloConfig plainUtls envOnes
        (getUTLSClientHelloID TLS_PROFILE_RANDOMIZED) freshUConn"
  let ?tails = "generateClientHelloConfig plainUtls (envOnes\<lparr>flipCoin := False\<rparr>)
        (getUTLSClientHelloID TLS_PROFILE_RANDOMIZED) freshUConn"
  have r1: "randRead envOnes = Inr (replicate 32 1)" "length (replicate 32 (1 :: byte)) = 32"
    "randRead (envOnes\<lparr>flipCoin := False\<rparr>) = Inr (replicate 32 1)"
    by (simp_all add: envOnes_def)
  have c: "flipCoin envOnes" by (simp add: envOnes_def)
  have np: "NextProtos freshUConn = []" by (simp add: freshUConn_def)
  have a: "map_sum id (\<lambda>u. (length (Extensions u), last (Extensions u))) ?heads
     = Inr (10, ALPNExtension [''h2'', ''http/1.1''])"
    by (simp add: generateClientHelloConfig_def generateDirect_def Let_def c np
          parrotRandomizedALPN_def plain_noALPN [OF r1(1,2)])
  have b: "map_sum id (\<lambda>u. (length (Extensions u), last (Extensions u))) ?tails
     = Inr (9, RenegotiationInfoExtension)"
    by (simp add: generateClientHelloConfig_def generateDirect_def Let_def
          plain_noALPN [OF r1(3,2)])
  from a obtain u1 where u1: "?heads = Inr u1" "length (Extensions u1) = 10"
    by (cases ?heads) auto
  from b obtain u2 where u2: "?tails = Inr u2" "length (Extensions u2) = 9"
    by (cases ?tails) auto
  from u1(2) u2(2) have "Extensions (withoutRandom u1) \<noteq> Extensions (withoutRandom u2)"
    by (auto simp: withoutRandom_def)
  then have "withoutRandom u1 \<noteq> withoutRandom u2" by auto
  with u1(1) u2(1) have d: "map_sum id withoutRandom ?heads \<noteq> map_sum id withoutRandom ?tails"
    by simp
  from a b d r1 c show ?thesis by simp
qed

end
